theory Spec2Isabelle
  imports Complex_Main "HOL-Library.AList" "HOL-Library.Sublist"
begin

section \<open>Exceptions\<close>

text \<open>
  Every \<^verbatim>\<open>raise\<close> of the two modules, and every exception the interpreter raises for
  them, is a value. The two \<^verbatim>\<open>LookupError\<close>s of \<^verbatim>\<open>update_task\<close> differ only in their
  message, so the message is part of the constructor. The specification's names are
  abstract: its \<^verbatim>\<open>TemporalInvariantError\<close> is the \<^verbatim>\<open>RuntimeError\<close> of \<^verbatim>\<open>Task.minutes\<close>, its
  \<^verbatim>\<open>InvalidStateError\<close> the \<^verbatim>\<open>TypeError\<close> of \<^verbatim>\<open>start\<close>, \<^verbatim>\<open>pause\<close> and \<^verbatim>\<open>complete\<close>, its
  \<^verbatim>\<open>NotFoundError\<close> and \<^verbatim>\<open>AmbiguousError\<close> the two \<^verbatim>\<open>LookupError\<close>s.
\<close>

datatype error =
    RuntimeError                \<comment> \<open>"We expect all end dates to happen in the same day"\<close>
  | TypeError                   \<comment> \<open>"... has incorrect times" / "Previous time had an actual value"\<close>
  | LookupError_NoTasks         \<comment> \<open>"No tasks found. Try to use the correct uuid."\<close>
  | LookupError_MoreThanOne     \<comment> \<open>"More than 1 task found. Try to add more text to your uuid."\<close>
  | AttributeError              \<comment> \<open>"Expected valid note", or a method the object does not have\<close>
  | KeyError                    \<comment> \<open>subscript of a dict with a key it does not hold\<close>
  | IndexError                  \<comment> \<open>\<^verbatim>\<open>xs[-1]\<close> on an empty list\<close>
  | ValueError                  \<comment> \<open>\<^verbatim>\<open>strptime\<close> on text that does not match the format\<close>

section \<open>Timestamps\<close>

text \<open>
  A \<^verbatim>\<open>datetime\<close> with its seven fields. Every timestamp the program builds is aware and
  in UTC (\<^verbatim>\<open>datetime.now(timezone.utc)\<close>, \<^verbatim>\<open>.replace(tzinfo=timezone.utc)\<close>), so the zone
  is not a field.
\<close>

record datetime =
  year :: nat
  month :: nat
  day :: nat
  hour :: nat
  minute :: nat
  second :: nat
  microsecond :: nat

text \<open>The constructor call \<^verbatim>\<open>datetime(y, m, d, h, mi, s, us, tzinfo=timezone.utc)\<close>.\<close>

definition mk_datetime :: "nat \<Rightarrow> nat \<Rightarrow> nat \<Rightarrow> nat \<Rightarrow> nat \<Rightarrow> nat \<Rightarrow> nat \<Rightarrow> datetime" where
  "mk_datetime y m d h mi s us =
     \<lparr>year = y, month = m, day = d, hour = h, minute = mi, second = s, microsecond = us\<rparr>"

definition is_leap :: "nat \<Rightarrow> bool" where
  "is_leap y = (y mod 4 = 0 \<and> (y mod 100 \<noteq> 0 \<or> y mod 400 = 0))"

definition days_in_month :: "nat \<Rightarrow> nat \<Rightarrow> nat" where
  "days_in_month y m =
     (if m = 2 then (if is_leap y then 29 else 28)
      else if m = 4 \<or> m = 6 \<or> m = 9 \<or> m = 11 then 30 else 31)"

text \<open>The ranges the \<^verbatim>\<open>datetime\<close> constructor enforces.\<close>

definition valid_datetime :: "datetime \<Rightarrow> bool" where
  "valid_datetime d =
     (1 \<le> year d \<and> year d \<le> 9999 \<and> 1 \<le> month d \<and> month d \<le> 12 \<and>
      1 \<le> day d \<and> day d \<le> days_in_month (year d) (month d) \<and>
      hour d < 24 \<and> minute d < 60 \<and> second d < 60 \<and> microsecond d < 1000000)"

text \<open>\<^verbatim>\<open>datetime.date()\<close>: the calendar day.\<close>

definition date :: "datetime \<Rightarrow> nat \<times> nat \<times> nat" where
  "date d = (year d, month d, day d)"

text \<open>
  \<^verbatim>\<open>toordinal\<close>: the proleptic Gregorian day number, as \<^verbatim>\<open>_ymd2ord\<close> computes it (days
  before the year, days before the month, day of the month).
\<close>

definition days_before_year :: "nat \<Rightarrow> nat" where
  "days_before_year y = (y - 1) * 365 + (y - 1) div 4 - (y - 1) div 100 + (y - 1) div 400"

definition days_before_month :: "nat \<Rightarrow> nat \<Rightarrow> nat" where
  "days_before_month y m = sum_list (map (days_in_month y) [1..<m])"

definition toordinal :: "datetime \<Rightarrow> nat" where
  "toordinal d = days_before_year (year d) + days_before_month (year d) (month d) + day d"

text \<open>Microseconds since the start of the day, and since the start of day 0.\<close>

definition time_of_day :: "datetime \<Rightarrow> int" where
  "time_of_day d =
     ((int (hour d) * 60 + int (minute d)) * 60 + int (second d)) * 1000000
       + int (microsecond d)"

definition to_microseconds :: "datetime \<Rightarrow> int" where
  "to_microseconds d = int (toordinal d) * 86400000000 + time_of_day d"

text \<open>
  \<^verbatim>\<open>(e - s).seconds\<close>. The difference of two timestamps is a \<^verbatim>\<open>timedelta\<close>, which keeps
  days, seconds and microseconds with \<^verbatim>\<open>0 <= seconds < 86400\<close> and
  \<^verbatim>\<open>0 <= microseconds < 1000000\<close>; only \<^verbatim>\<open>days\<close> carries the sign. The attribute
  \<^verbatim>\<open>seconds\<close> is that middle component, not the length of the difference.
\<close>

definition timedelta_seconds :: "datetime \<Rightarrow> datetime \<Rightarrow> int" where
  "timedelta_seconds e s =
     ((to_microseconds e - to_microseconds s) mod 86400000000) div 1000000"

text \<open>The order of timestamps (\<^verbatim>\<open><\<close> and \<^verbatim>\<open><=\<close> on aware UTC datetimes).\<close>

definition dt_less :: "datetime \<Rightarrow> datetime \<Rightarrow> bool" where
  "dt_less a b = (to_microseconds a < to_microseconds b)"

definition dt_le :: "datetime \<Rightarrow> datetime \<Rightarrow> bool" where
  "dt_le a b = (to_microseconds a \<le> to_microseconds b)"

section \<open>Tasks\<close>

text \<open>
  \<^verbatim>\<open>TaskStates\<close> is a \<^verbatim>\<open>StrEnum\<close>: its members are strings and compare as strings, and
  \<^verbatim>\<open>deserialize\<close> stores the status text of the file unchanged. The status of a task is
  therefore a string.
\<close>

definition CREATED :: string where "CREATED = ''CREATED''"
definition RUNNING :: string where "RUNNING = ''RUNNING''"
definition PAUSED :: string where "PAUSED = ''PAUSED''"
definition COMPLETED :: string where "COMPLETED = ''COMPLETED''"

text \<open>
  The field \<^verbatim>\<open>uuid\<close> holds a \<^verbatim>\<open>uuid.UUID\<close> in a task made by \<^verbatim>\<open>add_task\<close> and the plain
  text of the file in a task made by \<^verbatim>\<open>deserialize\<close>; the two never compare equal, and
  \<^verbatim>\<open>str\<close> gives the text of both.
\<close>

datatype ident = UUID string | Text string

fun str_ident :: "ident \<Rightarrow> string" where
  "str_ident (UUID s) = s"
| "str_ident (Text s) = s"

type_synonym interval = "datetime \<times> datetime option"

record task =
  uuid :: ident
  description :: string
  status :: string
  task_times :: "interval list"
  task_notes :: "string list"

subsection \<open>Elapsed minutes\<close>

text \<open>
  \<^verbatim>\<open>Task.minutes\<close>. The loop carries \<^verbatim>\<open>seconds\<close>; \<^verbatim>\<open>end\<close> is rebound locally when it is
  unset (the list \<^verbatim>\<open>self.times\<close> is only read), and the clock is the parameter \<open>now\<close>.
  The quotient \<^verbatim>\<open>seconds / 60\<close> is Python's true division, given here exactly.
\<close>

fun minutes_loop :: "datetime \<Rightarrow> interval list \<Rightarrow> int \<Rightarrow> error + int" where
  "minutes_loop now [] seconds = Inr seconds"
| "minutes_loop now ((start, e) # rest) seconds =
     (let e' = (case e of None \<Rightarrow> now | Some y \<Rightarrow> y)
      in if date e' \<noteq> date start then Inl RuntimeError
         else minutes_loop now rest (seconds + timedelta_seconds e' start))"

definition minutes :: "datetime \<Rightarrow> task \<Rightarrow> error + rat" where
  "minutes now t =
     (case minutes_loop now (task_times t) 0 of
        Inl err \<Rightarrow> Inl err
      | Inr seconds \<Rightarrow> Inr (of_int seconds / 60))"

subsection \<open>Transitions\<close>

text \<open>
  The methods mutate \<^verbatim>\<open>self\<close>, may print and may raise. An effect holds the object as
  the method leaves it (also when it raises: an assignment made before the \<^verbatim>\<open>raise\<close>
  stays), the lines printed and the exception, if any.
\<close>

record 'a effect =
  after :: 'a
  printed :: "string list"
  raised :: "error option"

text \<open>
  \<^verbatim>\<open>Task.start\<close>. The status test guards the assignment of the status only; the check
  of the previous interval and the \<^verbatim>\<open>append\<close> follow for every status.
  \<^verbatim>\<open>isinstance(prev_start, datetime)\<close> holds by the type of the list, and
  \<^verbatim>\<open>isinstance(prev_end, datetime)\<close> fails exactly for \<^verbatim>\<open>None\<close>.
\<close>

definition start :: "datetime \<Rightarrow> task \<Rightarrow> task effect" where
  "start now t =
     (let t1 = (if status t = CREATED \<or> status t = PAUSED then t\<lparr>status := RUNNING\<rparr> else t)
      in if task_times t1 \<noteq> [] \<and> snd (last (task_times t1)) = None
         then \<lparr>after = t1, printed = [], raised = Some TypeError\<rparr>
         else \<lparr>after = t1\<lparr>task_times := task_times t1 @ [(now, None)]\<rparr>,
                printed = [], raised = None\<rparr>)"

text \<open>
  \<^verbatim>\<open>Task.pause\<close> and \<^verbatim>\<open>Task.complete\<close> differ in the status they assign. Both assign it
  before they read \<^verbatim>\<open>self.times[-1]\<close>, which raises \<^verbatim>\<open>IndexError\<close> on an empty list.
\<close>

definition close_last :: "string \<Rightarrow> datetime \<Rightarrow> task \<Rightarrow> task effect" where
  "close_last new_status now t =
     (if status t \<noteq> RUNNING
      then \<lparr>after = t, printed = [''Task is not running''], raised = None\<rparr>
      else
        let t1 = t\<lparr>status := new_status\<rparr> in
        if task_times t1 = [] then \<lparr>after = t1, printed = [], raised = Some IndexError\<rparr>
        else
          let (prev_start, prev_end) = last (task_times t1) in
          if prev_end \<noteq> None then \<lparr>after = t1, printed = [], raised = Some TypeError\<rparr>
          else \<lparr>after = t1\<lparr>task_times :=
                   (task_times t1)[length (task_times t1) - 1 := (prev_start, Some now)]\<rparr>,
                 printed = [], raised = None\<rparr>)"

definition pause :: "datetime \<Rightarrow> task \<Rightarrow> task effect" where
  "pause now t = close_last PAUSED now t"

definition complete :: "datetime \<Rightarrow> task \<Rightarrow> task effect" where
  "complete now t = close_last COMPLETED now t"

definition add_note :: "string \<Rightarrow> task \<Rightarrow> task effect" where
  "add_note note t =
     \<lparr>after = t\<lparr>task_notes := task_notes t @ [note]\<rparr>, printed = [], raised = None\<rparr>"

text \<open>The interval invariant of the data model: no interval but the last is open.\<close>

definition open_interval :: "interval \<Rightarrow> bool" where
  "open_interval iv = (snd iv = None)"

definition times_invariant :: "interval list \<Rightarrow> bool" where
  "times_invariant ts =
     (length (filter open_interval ts) \<le> 1 \<and>
      list_all (\<lambda>iv. \<not> open_interval iv) (butlast ts))"

section \<open>Serialisation\<close>

subsection \<open>The timestamp format\<close>

text \<open>
  \<^verbatim>\<open>DATE_FORMAT = "%Y-%m-%dT%H:%M"\<close>. \<^verbatim>\<open>strftime\<close> writes the month, day, hour and minute
  with two digits. The year is left to the C library, which on Linux writes it without
  padding (\<^verbatim>\<open>999\<close>, not \<^verbatim>\<open>0999\<close>); from the year 1000 on every platform writes the
  same four digits.
\<close>

definition digit_char :: "nat \<Rightarrow> char" where
  "digit_char n = ''0123456789'' ! (n mod 10)"

definition two_digits :: "nat \<Rightarrow> string" where
  "two_digits n = [digit_char (n div 10), digit_char (n mod 10)]"

definition four_digits :: "nat \<Rightarrow> string" where
  "four_digits n =
     [digit_char (n div 1000), digit_char (n div 100 mod 10),
      digit_char (n div 10 mod 10), digit_char (n mod 10)]"

definition year_digits :: "nat \<Rightarrow> string" where
  "year_digits y = dropWhile (\<lambda>c. c = CHR ''0'') (four_digits y)"

definition strftime :: "datetime \<Rightarrow> string" where
  "strftime d =
     year_digits (year d) @ ''-'' @ two_digits (month d) @ ''-'' @ two_digits (day d)
       @ ''T'' @ two_digits (hour d) @ '':'' @ two_digits (minute d)"

text \<open>
  \<^verbatim>\<open>strptime\<close> turns the format into the regular expression
  \<^verbatim>\<open>(\d\d\d\d)-(1[0-2]|0[1-9]|[1-9])-(3[0-1]|[1-2]\d|0[1-9]|[1-9]| [1-9])T(2[0-3]|[0-1]\d|\d):([0-5]\d|\d)\<close>,
  matched at the start of the text without regard to case, and rejects text left over
  after the match. A group of one or two digits is followed by a character that is no
  digit (or by the end), so the alternatives of a group can only match the longest run
  of at most two digits, and match it when its value is in the group's range. The
  fields then go through the \<^verbatim>\<open>date\<close> constructor, which rejects the year 0 and a day the
  month does not have. Every failure is a \<^verbatim>\<open>ValueError\<close>. Text is ASCII here.
\<close>

definition is_digit :: "char \<Rightarrow> bool" where
  "is_digit c = (c \<in> set ''0123456789'')"

definition digit_val :: "char \<Rightarrow> nat" where
  "digit_val c = of_char c - 48"

fun year_group :: "string \<Rightarrow> (nat \<times> string) option" where
  "year_group (a # b # c # d # rest) =
     (if is_digit a \<and> is_digit b \<and> is_digit c \<and> is_digit d
      then Some (1000 * digit_val a + 100 * digit_val b + 10 * digit_val c + digit_val d, rest)
      else None)"
| "year_group _ = None"

fun digits12 :: "string \<Rightarrow> (nat \<times> string) option" where
  "digits12 (a # b # rest) =
     (if is_digit a \<and> is_digit b then Some (10 * digit_val a + digit_val b, rest)
      else if is_digit a then Some (digit_val a, b # rest)
      else None)"
| "digits12 [a] = (if is_digit a then Some (digit_val a, []) else None)"
| "digits12 [] = None"

definition ranged :: "nat \<Rightarrow> nat \<Rightarrow> string \<Rightarrow> (nat \<times> string) option" where
  "ranged lo hi s =
     (case digits12 s of
        None \<Rightarrow> None
      | Some (n, rest) \<Rightarrow> if lo \<le> n \<and> n \<le> hi then Some (n, rest) else None)"

definition month_group :: "string \<Rightarrow> (nat \<times> string) option" where
  "month_group s = ranged 1 12 s"

fun day_group :: "string \<Rightarrow> (nat \<times> string) option" where
  "day_group (a # b # rest) =
     (if a = CHR '' '' then
        (if is_digit b \<and> b \<noteq> CHR ''0'' then Some (digit_val b, rest) else None)
      else ranged 1 31 (a # b # rest))"
| "day_group s = ranged 1 31 s"

definition hour_group :: "string \<Rightarrow> (nat \<times> string) option" where
  "hour_group s = ranged 0 23 s"

definition minute_group :: "string \<Rightarrow> (nat \<times> string) option" where
  "minute_group s = ranged 0 59 s"

fun literal :: "char list \<Rightarrow> string \<Rightarrow> string option" where
  "literal cs [] = None"
| "literal cs (x # rest) = (if x \<in> set cs then Some rest else None)"

definition parse_fields :: "string \<Rightarrow> (nat \<times> nat \<times> nat \<times> nat \<times> nat) option" where
  "parse_fields s =
     Option.bind (year_group s) (\<lambda>(y, s1).
     Option.bind (literal ''-'' s1) (\<lambda>s2.
     Option.bind (month_group s2) (\<lambda>(m, s3).
     Option.bind (literal ''-'' s3) (\<lambda>s4.
     Option.bind (day_group s4) (\<lambda>(d, s5).
     Option.bind (literal ''Tt'' s5) (\<lambda>s6.
     Option.bind (hour_group s6) (\<lambda>(h, s7).
     Option.bind (literal '':'' s7) (\<lambda>s8.
     Option.bind (minute_group s8) (\<lambda>(mi, s9).
       if s9 = [] then Some (y, m, d, h, mi) else None)))))))))"

definition strptime :: "string \<Rightarrow> error + datetime" where
  "strptime s =
     (case parse_fields s of
        None \<Rightarrow> Inl ValueError
      | Some (y, m, d, h, mi) \<Rightarrow>
          if 1 \<le> y \<and> d \<le> days_in_month y m
          then Inr \<lparr>year = y, month = m, day = d, hour = h, minute = mi,
                    second = 0, microsecond = 0\<rparr>
          else Inl ValueError)"

text \<open>\<^verbatim>\<open>str.lower\<close> on ASCII text.\<close>

definition lower_char :: "char \<Rightarrow> char" where
  "lower_char c =
     (case map_of (zip ''ABCDEFGHIJKLMNOPQRSTUVWXYZ'' ''abcdefghijklmnopqrstuvwxyz'') c of
        None \<Rightarrow> c
      | Some l \<Rightarrow> l)"

definition lower :: "string \<Rightarrow> string" where
  "lower s = map lower_char s"

subsection \<open>Task records of the file\<close>

text \<open>
  The dict a task is read from and written to. A key may be missing (\<open>None\<close>);
  \<^verbatim>\<open>deserialize\<close> reads \<^verbatim>\<open>times\<close> with a default, drops \<^verbatim>\<open>minutes\<close> and passes the rest
  to the constructor of \<^verbatim>\<open>Task\<close>, which has a default for \<^verbatim>\<open>notes\<close> only and raises
  \<^verbatim>\<open>TypeError\<close> when another key is missing. An interval is a pair of texts.
\<close>

record toml_task =
  t_uuid :: "string option"
  t_description :: "string option"
  t_status :: "string option"
  t_times :: "(string \<times> string) list option"
  t_notes :: "string list option"
  t_minutes :: "rat option"

text \<open>\<^verbatim>\<open>TomlHelper.deserialize\<close>: the loop over \<^verbatim>\<open>times\<close>, then the constructor.\<close>

fun deserialize_times :: "(string \<times> string) list \<Rightarrow> error + interval list" where
  "deserialize_times [] = Inr []"
| "deserialize_times ((x, y) # rest) =
     (case strptime x of
        Inl err \<Rightarrow> Inl err
      | Inr x' \<Rightarrow>
          (case (if lower y = ''none'' then Inr None else map_sum id Some (strptime y)) of
             Inl err \<Rightarrow> Inl err
           | Inr y' \<Rightarrow>
               (case deserialize_times rest of
                  Inl err \<Rightarrow> Inl err
                | Inr parsed \<Rightarrow> Inr ((x', y') # parsed))))"

definition deserialize :: "toml_task \<Rightarrow> error + task" where
  "deserialize toml_dict =
     (case deserialize_times (case t_times toml_dict of None \<Rightarrow> [] | Some ts \<Rightarrow> ts) of
        Inl err \<Rightarrow> Inl err
      | Inr parsed \<Rightarrow>
          (case (t_uuid toml_dict, t_description toml_dict, t_status toml_dict) of
             (Some u, Some de, Some st) \<Rightarrow>
               Inr \<lparr>uuid = Text u, description = de, status = st, task_times = parsed,
                    task_notes = (case t_notes toml_dict of None \<Rightarrow> [] | Some ns \<Rightarrow> ns)\<rparr>
           | _ \<Rightarrow> Inl TypeError))"

text \<open>
  \<^verbatim>\<open>TomlHelper.serialize\<close>. An open end is written as \<^verbatim>\<open>str(None)\<close>, the text
  \<^verbatim>\<open>None\<close>. \<open>serialize\<close> is the call with the default \<^verbatim>\<open>with_minutes=False\<close>, the only
  one the program makes; \<open>serialize_with_minutes\<close> is the other.
\<close>

definition serialize_interval :: "interval \<Rightarrow> string \<times> string" where
  "serialize_interval iv =
     (case iv of (x, y) \<Rightarrow>
        (strftime x, (case y of None \<Rightarrow> ''None'' | Some y' \<Rightarrow> strftime y')))"

definition serialize :: "task \<Rightarrow> toml_task" where
  "serialize t =
     \<lparr>t_uuid = Some (str_ident (uuid t)), t_description = Some (description t),
      t_status = Some (status t), t_times = Some (map serialize_interval (task_times t)),
      t_notes = Some (task_notes t), t_minutes = None\<rparr>"

definition serialize_with_minutes :: "datetime \<Rightarrow> task \<Rightarrow> error + toml_task" where
  "serialize_with_minutes now t =
     (case minutes now t of
        Inl err \<Rightarrow> Inl err
      | Inr m \<Rightarrow> Inr ((serialize t)\<lparr>t_minutes := Some m\<rparr>))"

text \<open>
  A well-formed record, as \<open>serialize\<close> writes it: the five keys and no \<^verbatim>\<open>minutes\<close>; each
  start a timestamp of sixteen characters \<^verbatim>\<open>YYYY-MM-DDTHH:MM\<close> with a year from 1000, a
  month, a day of that month, an hour below 24 and a minute below 60; each end such a
  timestamp or the sentinel of an open interval.
\<close>

fun wf_timestamp :: "string \<Rightarrow> bool" where
  "wf_timestamp [y1, y2, y3, y4, s1, m1, m2, s2, d1, d2, s3, h1, h2, s4, n1, n2] =
     (list_all is_digit [y1, y2, y3, y4, m1, m2, d1, d2, h1, h2, n1, n2] \<and>
      s1 = CHR ''-'' \<and> s2 = CHR ''-'' \<and> s3 = CHR ''T'' \<and> s4 = CHR '':'' \<and>
      y1 \<noteq> CHR ''0'' \<and>
      1 \<le> 10 * digit_val m1 + digit_val m2 \<and> 10 * digit_val m1 + digit_val m2 \<le> 12 \<and>
      1 \<le> 10 * digit_val d1 + digit_val d2 \<and>
      10 * digit_val d1 + digit_val d2
        \<le> days_in_month
             (1000 * digit_val y1 + 100 * digit_val y2 + 10 * digit_val y3 + digit_val y4)
             (10 * digit_val m1 + digit_val m2) \<and>
      10 * digit_val h1 + digit_val h2 \<le> 23 \<and>
      10 * digit_val n1 + digit_val n2 \<le> 59)"
| "wf_timestamp _ = False"

definition wf_pair :: "string \<Rightarrow> string \<times> string \<Rightarrow> bool" where
  "wf_pair sentinel p = (wf_timestamp (fst p) \<and> (snd p = sentinel \<or> wf_timestamp (snd p)))"

definition wf_record :: "string \<Rightarrow> toml_task \<Rightarrow> bool" where
  "wf_record sentinel x =
     (t_uuid x \<noteq> None \<and> t_description x \<noteq> None \<and> t_status x \<noteq> None \<and>
      t_notes x \<noteq> None \<and> t_minutes x = None \<and>
      (case t_times x of None \<Rightarrow> False | Some ts \<Rightarrow> list_all (wf_pair sentinel) ts))"

text \<open>The timestamps a task may hold, and the cut of a timestamp to the minute.\<close>

definition valid_interval :: "interval \<Rightarrow> bool" where
  "valid_interval iv =
     (valid_datetime (fst iv) \<and> 1000 \<le> year (fst iv) \<and>
      (case snd iv of None \<Rightarrow> True | Some e \<Rightarrow> valid_datetime e \<and> 1000 \<le> year e))"

definition truncate_minute :: "datetime \<Rightarrow> datetime" where
  "truncate_minute d = d\<lparr>second := 0, microsecond := 0\<rparr>"

definition truncate_interval :: "interval \<Rightarrow> interval" where
  "truncate_interval iv = (truncate_minute (fst iv), map_option truncate_minute (snd iv))"

definition whole_minute :: "datetime \<Rightarrow> bool" where
  "whole_minute d = (second d = 0 \<and> microsecond d = 0)"

definition whole_minute_interval :: "interval \<Rightarrow> bool" where
  "whole_minute_interval iv =
     (whole_minute (fst iv) \<and> (case snd iv of None \<Rightarrow> True | Some e \<Rightarrow> whole_minute e))"

section \<open>The document\<close>

text \<open>
  \<^verbatim>\<open>TomlDocument\<close>: the working date, the metadata (values kept as opaque text), the
  dict from date key to task list in insertion order, and the content of the file. A
  dict holds a key once; \<open>AList.update\<close> is the assignment \<^verbatim>\<open>d[k] = v\<close>.
\<close>

datatype toml_value = Scalar string | TaskList "toml_task list"

record document =
  working_date :: "nat \<times> nat \<times> nat"
  other_data :: "(string \<times> string) list"
  tasks_data :: "(string \<times> task list) list"
  file_content :: "(string \<times> toml_value) list"

text \<open>\<^verbatim>\<open>date.isoformat()\<close>: \<^verbatim>\<open>"%04d-%02d-%02d"\<close>.\<close>

definition isoformat :: "nat \<times> nat \<times> nat \<Rightarrow> string" where
  "isoformat ymd =
     (case ymd of (y, m, d) \<Rightarrow> four_digits y @ ''-'' @ two_digits m @ ''-'' @ two_digits d)"

text \<open>\<^verbatim>\<open>TomlDocument.write\<close> (\<open>write_file\<close> here).\<close>

fun write_loop ::
  "(string \<times> task list) list \<Rightarrow> (string \<times> toml_value) list \<Rightarrow> (string \<times> toml_value) list"
where
  "write_loop [] serialized_data = serialized_data"
| "write_loop ((d, date_tasks) # rest) serialized_data =
     write_loop rest (AList.update d (TaskList (map serialize date_tasks)) serialized_data)"

definition write_file :: "document \<Rightarrow> document" where
  "write_file doc =
     doc\<lparr>file_content := write_loop (tasks_data doc) (map (\<lambda>(k, v). (k, Scalar v)) (other_data doc))\<rparr>"

text \<open>\<^verbatim>\<open>TomlDocument.add_task\<close>; the fresh identifier of \<^verbatim>\<open>uuid4()\<close> is a parameter.\<close>

definition add_task :: "string \<Rightarrow> string \<Rightarrow> nat \<times> nat \<times> nat \<Rightarrow> document \<Rightarrow> document effect" where
  "add_task new_uuid descr d doc =
     (let task = \<lparr>uuid = UUID new_uuid, description = descr, status = CREATED,
                  task_times = [], task_notes = []\<rparr>;
          today_key = isoformat d;
          today_tasks = (case map_of (tasks_data doc) today_key of None \<Rightarrow> [] | Some ts \<Rightarrow> ts);
          doc1 = doc\<lparr>tasks_data := AList.update today_key (today_tasks @ [task]) (tasks_data doc)\<rparr>
      in \<lparr>after = write_file doc1, printed = [''task added: '' @ new_uuid], raised = None\<rparr>)"

text \<open>\<^verbatim>\<open>uuid in str(x.uuid)\<close>: the fragment occurs in the text as a contiguous part.\<close>

fun contains :: "string \<Rightarrow> string \<Rightarrow> bool" where
  "contains frag [] = (frag = [])"
| "contains frag (c # s) = (prefix frag (c # s) \<or> contains frag s)"

text \<open>
  \<^verbatim>\<open>TomlDocument.update_task\<close>, lines 150 to 161: the lookup of the task. The subscript
  \<^verbatim>\<open>self.tasks_data[working_key]\<close> comes first and raises \<^verbatim>\<open>KeyError\<close> for a date the
  dict does not hold.
\<close>

definition find_task :: "string \<Rightarrow> document \<Rightarrow> error + task" where
  "find_task frag doc =
     (case map_of (tasks_data doc) (isoformat (working_date doc)) of
        None \<Rightarrow> Inl KeyError
      | Some today_tasks \<Rightarrow>
          (case filter (\<lambda>x. contains frag (str_ident (uuid x))) today_tasks of
             [] \<Rightarrow> Inl LookupError_NoTasks
           | [relevant_task] \<Rightarrow> Inr relevant_task
           | _ \<Rightarrow> Inl LookupError_MoreThanOne))"

text \<open>
  The rest of \<^verbatim>\<open>update_task\<close>. The task found is an element of the day's list and the
  action mutates it in place: the first element the fragment selects is replaced by
  what the action leaves. \<^verbatim>\<open>self.write()\<close> is reached only when nothing was raised.
\<close>

datatype Actions = START | PAUSE | COMPLETE | NOTE

fun replace_first :: "('a \<Rightarrow> bool) \<Rightarrow> 'a \<Rightarrow> 'a list \<Rightarrow> 'a list" where
  "replace_first P y [] = []"
| "replace_first P y (x # xs) = (if P x then y # xs else x # replace_first P y xs)"

definition apply_action :: "datetime \<Rightarrow> Actions \<Rightarrow> string option \<Rightarrow> task \<Rightarrow> task effect" where
  "apply_action now action note relevant_task =
     (case action of
        START \<Rightarrow> start now relevant_task
      | PAUSE \<Rightarrow> pause now relevant_task
      | COMPLETE \<Rightarrow> complete now relevant_task
      | NOTE \<Rightarrow>
          (case note of
             None \<Rightarrow> \<lparr>after = relevant_task, printed = [], raised = Some AttributeError\<rparr>
           | Some n \<Rightarrow>
               if n = [] then \<lparr>after = relevant_task, printed = [], raised = Some AttributeError\<rparr>
               else add_note n relevant_task))"

definition update_task ::
  "datetime \<Rightarrow> string \<Rightarrow> Actions \<Rightarrow> string option \<Rightarrow> document \<Rightarrow> document effect"
where
  "update_task now frag action note doc =
     (case find_task frag doc of
        Inl err \<Rightarrow> \<lparr>after = doc, printed = [], raised = Some err\<rparr>
      | Inr relevant_task \<Rightarrow>
          let working_key = isoformat (working_date doc);
              today_tasks = (case map_of (tasks_data doc) working_key of
                               None \<Rightarrow> [] | Some ts \<Rightarrow> ts);
              eff = apply_action now action note relevant_task;
              doc1 = doc\<lparr>tasks_data :=
                       AList.update working_key
                         (replace_first (\<lambda>x. contains frag (str_ident (uuid x)))
                            (after eff) today_tasks)
                         (tasks_data doc)\<rparr>
          in (case raised eff of
                Some err \<Rightarrow> \<lparr>after = doc1, printed = printed eff, raised = Some err\<rparr>
              | None \<Rightarrow> \<lparr>after = write_file doc1, printed = printed eff, raised = None\<rparr>))"

text \<open>
  \<^verbatim>\<open>TomlDocument.errors\<close>. The first loop fills the dict \<^verbatim>\<open>errors\<close>; the second prints a
  heading per date and then calls \<^verbatim>\<open>t.report()\<close> for each task collected. The class
  \<^verbatim>\<open>Task\<close> has no attribute \<^verbatim>\<open>report\<close> (its methods are \<^verbatim>\<open>tex_description\<close>, \<^verbatim>\<open>minutes\<close>,
  \<^verbatim>\<open>terminal_report\<close>, \<^verbatim>\<open>terminal_report_with_uuid\<close>, \<^verbatim>\<open>start\<close>, \<^verbatim>\<open>pause\<close>, \<^verbatim>\<open>complete\<close>
  and \<^verbatim>\<open>add_note\<close>), so the call raises \<^verbatim>\<open>AttributeError\<close> before its argument is
  printed. The day of the clock is the parameter \<open>today\<close>.
\<close>

fun errors_loop ::
  "string \<Rightarrow> (string \<times> task list) list \<Rightarrow> (string \<times> task list) list
     \<Rightarrow> (string \<times> task list) list"
where
  "errors_loop today_key [] errs = errs"
| "errors_loop today_key ((d, ts) # rest) errs =
     (if d = today_key then errors_loop today_key rest errs
      else
        let error_tasks = filter (\<lambda>t. status t \<noteq> COMPLETED) ts in
        if error_tasks \<noteq> [] then errors_loop today_key rest (AList.update d error_tasks errs)
        else errors_loop today_key rest errs)"

definition heading :: "string \<Rightarrow> string" where
  "heading d = [CHR 0x1B] @ ''[1;33m'' @ d @ [CHR 0x1B] @ ''[0m''"

fun print_tasks :: "task list \<Rightarrow> string list \<times> error option" where
  "print_tasks [] = ([], None)"
| "print_tasks (t # ts) = ([], Some AttributeError)"

fun print_errors :: "(string \<times> task list) list \<Rightarrow> string list \<times> error option" where
  "print_errors [] = ([], None)"
| "print_errors ((d, errs) # rest) =
     (case print_tasks errs of
        (out, Some err) \<Rightarrow> (heading d # out, Some err)
      | (out, None) \<Rightarrow>
          (case print_errors rest of (out', r) \<Rightarrow> (heading d # out @ out', r)))"

definition errors :: "nat \<times> nat \<times> nat \<Rightarrow> document \<Rightarrow> document effect" where
  "errors today doc =
     (let errs = errors_loop (isoformat today) (tasks_data doc) [] in
      if errs = [] then \<lparr>after = doc, printed = [''No errors found''], raised = None\<rparr>
      else (case print_errors errs of (out, r) \<Rightarrow> \<lparr>after = doc, printed = out, raised = r\<rparr>))"

section \<open>Tasks the program can hold\<close>

text \<open>
  A task starts in \<^verbatim>\<open>add_task\<close>, is changed by the four methods, and between two runs of
  the program is written to the file and read back.
\<close>

inductive reachable :: "task \<Rightarrow> bool" where
  created: "reachable \<lparr>uuid = UUID u, description = descr, status = CREATED,
                       task_times = [], task_notes = []\<rparr>"
| started: "reachable t \<Longrightarrow> reachable (after (start now t))"
| paused: "reachable t \<Longrightarrow> reachable (after (pause now t))"
| completed: "reachable t \<Longrightarrow> reachable (after (complete now t))"
| noted: "reachable t \<Longrightarrow> reachable (after (add_note note t))"
| reloaded: "reachable t \<Longrightarrow> deserialize (serialize t) = Inr t' \<Longrightarrow> reachable t'"

section \<open>What the specification says of elapsed time\<close>

text \<open>
  The whole seconds from \<open>s\<close> to \<open>e\<close>, and the sum the specification gives for the
  elapsed minutes of a task: over all intervals, the whole seconds from the start to the
  end (or to now), divided by 60.
\<close>

definition whole_seconds_between :: "datetime \<Rightarrow> datetime \<Rightarrow> int" where
  "whole_seconds_between s e = (to_microseconds e - to_microseconds s) div 1000000"

definition end_or_now :: "datetime \<Rightarrow> interval \<Rightarrow> datetime" where
  "end_or_now now iv = (case snd iv of None \<Rightarrow> now | Some e \<Rightarrow> e)"

definition elapsed_minutes_spec :: "datetime \<Rightarrow> task \<Rightarrow> rat" where
  "elapsed_minutes_spec now t =
     of_int (sum_list (map (\<lambda>iv. whole_seconds_between (fst iv) (end_or_now now iv))
                         (task_times t))) / 60"

text \<open>
  An interval in chronological order within one day: both timestamps are values of
  \<^verbatim>\<open>datetime\<close>, the end (or now) is on the calendar day of the start, and not before it.
\<close>

definition chronological :: "datetime \<Rightarrow> interval \<Rightarrow> bool" where
  "chronological now iv =
     (valid_datetime (fst iv) \<and> valid_datetime (end_or_now now iv) \<and>
      date (end_or_now now iv) = date (fst iv) \<and> dt_le (fst iv) (end_or_now now iv))"

section \<open>An example task\<close>

text \<open>
  The task of the scenarios with a given status and interval list, as a record of the
  file and as an object.
\<close>

definition report_record :: "string \<Rightarrow> (string \<times> string) list \<Rightarrow> toml_task" where
  "report_record st ts =
     \<lparr>t_uuid = Some ''6f1c2a9e'', t_description = Some ''Write report'', t_status = Some st,
      t_times = Some ts, t_notes = Some [''half done''], t_minutes = None\<rparr>"

definition report_task :: "string \<Rightarrow> interval list \<Rightarrow> task" where
  "report_task st ts =
     \<lparr>uuid = UUID ''6f1c2a9e'', description = ''Write report'', status = st,
      task_times = ts, task_notes = []\<rparr>"

text \<open>
  A document with two days: on 2024-07-03 a task left running and a completed one, on
  2024-07-04 the task of the scenarios and a second task whose identifier starts with
  the same three characters. The working date is a parameter.
\<close>

definition example_document :: "nat \<times> nat \<times> nat \<Rightarrow> document" where
  "example_document wd =
     \<lparr>working_date = wd,
      other_data = [(''version'', ''0.0.0'')],
      tasks_data =
        [(''2024-07-03'',
          [\<lparr>uuid = Text ''a1b2c3d4'', description = ''Fix login'', status = RUNNING,
            task_times = [(mk_datetime 2024 7 3 16 0 0 0, None)], task_notes = []\<rparr>,
           \<lparr>uuid = Text ''c3d4e5f6'', description = ''Plan sprint'', status = COMPLETED,
            task_times = [(mk_datetime 2024 7 3 10 0 0 0, Some (mk_datetime 2024 7 3 11 0 0 0))],
            task_notes = []\<rparr>]),
         (''2024-07-04'',
          [report_task CREATED [],
           \<lparr>uuid = Text ''6f1d77b0'', description = ''Review'', status = PAUSED,
            task_times = [(mk_datetime 2024 7 4 8 0 0 0, Some (mk_datetime 2024 7 4 8 30 0 0))],
            task_notes = []\<rparr>])],
      file_content = []\<rparr>"

section \<open>Elapsed time: proofs\<close>

text \<open>On one calendar day the difference of two timestamps is that of their times of day.\<close>

lemma same_date_difference:
  "date e = date s \<Longrightarrow> to_microseconds e - to_microseconds s = time_of_day e - time_of_day s"
  by (simp add: date_def to_microseconds_def toordinal_def)

lemma timedelta_seconds_same_date:
  "date e = date s \<Longrightarrow>
   timedelta_seconds e s = ((time_of_day e - time_of_day s) mod 86400000000) div 1000000"
  by (simp add: timedelta_seconds_def same_date_difference)

lemma whole_seconds_same_date:
  "date e = date s \<Longrightarrow>
   whole_seconds_between s e = (time_of_day e - time_of_day s) div 1000000"
  by (simp add: whole_seconds_between_def same_date_difference)

lemma dt_le_same_date: "date a = date b \<Longrightarrow> dt_le a b = (time_of_day a \<le> time_of_day b)"
  using same_date_difference [of b a] by (auto simp: dt_le_def)

lemma dt_less_same_date: "date a = date b \<Longrightarrow> dt_less a b = (time_of_day a < time_of_day b)"
  using same_date_difference [of b a] by (auto simp: dt_less_def)

lemmas datetime_eval =
  mk_datetime_def date_def time_of_day_def valid_datetime_def days_in_month_def end_or_now_def

lemma time_of_day_bounds:
  assumes "valid_datetime d"
  shows "0 \<le> time_of_day d" and "time_of_day d < 86400000000"
proof -
  show "0 \<le> time_of_day d" by (simp add: time_of_day_def)
  from assms have "int (hour d) \<le> 23" "int (minute d) \<le> 59" "int (second d) \<le> 59"
    "int (microsecond d) \<le> 999999"
    by (auto simp: valid_datetime_def)
  then show "time_of_day d < 86400000000"
    unfolding time_of_day_def by (simp add: algebra_simps)
qed

text \<open>
  For an interval in chronological order the difference is below one day and not
  negative, so its \<^verbatim>\<open>seconds\<close> are its whole seconds.
\<close>

lemma timedelta_seconds_chronological:
  assumes "chronological now iv"
  shows "timedelta_seconds (end_or_now now iv) (fst iv)
           = whole_seconds_between (fst iv) (end_or_now now iv)"
proof -
  let ?e = "end_or_now now iv" and ?s = "fst iv"
  from assms have d: "to_microseconds ?e - to_microseconds ?s = time_of_day ?e - time_of_day ?s"
    by (simp add: chronological_def same_date_difference)
  from assms have "0 \<le> to_microseconds ?e - to_microseconds ?s"
    by (simp add: chronological_def dt_le_def)
  moreover from assms have "time_of_day ?e < 86400000000" "0 \<le> time_of_day ?s"
    by (simp_all add: chronological_def time_of_day_bounds)
  ultimately have "0 \<le> to_microseconds ?e - to_microseconds ?s"
    "to_microseconds ?e - to_microseconds ?s < 86400000000"
    using d by linarith+
  then show ?thesis
    by (simp add: timedelta_seconds_def whole_seconds_between_def)
qed

lemma minutes_loop_chronological:
  "list_all (chronological now) ts \<Longrightarrow>
   minutes_loop now ts acc =
     Inr (acc + sum_list (map (\<lambda>iv. whole_seconds_between (fst iv) (end_or_now now iv)) ts))"
proof (induction ts arbitrary: acc)
  case Nil
  then show ?case by simp
next
  case (Cons iv ts)
  obtain s e where iv: "iv = (s, e)" by (cases iv)
  from Cons.prems have c: "chronological now iv" and rest: "list_all (chronological now) ts"
    by simp_all
  from c have same: "date (end_or_now now iv) = date (fst iv)"
    by (simp add: chronological_def)
  have e': "(case e of None \<Rightarrow> now | Some y \<Rightarrow> y) = end_or_now now iv"
    by (simp add: end_or_now_def iv)
  show ?case
    using same timedelta_seconds_chronological [OF c] Cons.IH [OF rest]
    by (simp add: iv e' [unfolded iv] Let_def)
qed

lemma minutes_loop_other_day:
  "iv \<in> set ts \<Longrightarrow> date (end_or_now now iv) \<noteq> date (fst iv) \<Longrightarrow>
   minutes_loop now ts acc = Inl RuntimeError"
proof (induction ts arbitrary: acc)
  case Nil
  then show ?case by simp
next
  case (Cons x ts)
  obtain s e where x: "x = (s, e)" by (cases x)
  show ?case
  proof (cases "date (end_or_now now x) = date (fst x)")
    case True
    with Cons.prems have "iv \<in> set ts" by auto
    from Cons.IH [OF this Cons.prems(2)] True show ?thesis
      by (simp add: x end_or_now_def Let_def)
  next
    case False
    then show ?thesis by (simp add: x end_or_now_def Let_def)
  qed
qed

text \<open>
  C1, as amended. For every task whose intervals are each in chronological order within
  one calendar day (the end, or the current instant for an unset end, is on the day of
  the start and not before it), \<open>minutes\<close> returns, and returns the sum over all
  intervals of the whole seconds between the start and the end (or now), divided by 60,
  as an exact fraction. The task is an argument that is only read.
\<close>

theorem minutes_sums_whole_seconds:
  assumes "list_all (chronological now) (task_times t)"
  shows "minutes now t = Inr (elapsed_minutes_spec now t)"
  using minutes_loop_chronological [OF assms, of 0]
  by (simp add: minutes_def elapsed_minutes_spec_def)

text \<open>
  The theorem at a running task with a closed interval of 90.25 seconds and an open one
  that started 45.5 seconds before now: 90 + 45 whole seconds are 9/4 minutes.
\<close>

theorem minutes_sums_whole_seconds_witness:
  "list_all (chronological (mk_datetime 2024 7 3 14 0 45 500000))
     [(mk_datetime 2024 7 3 9 0 0 0, Some (mk_datetime 2024 7 3 9 1 30 250000)),
      (mk_datetime 2024 7 3 14 0 0 0, None)] \<and>
   minutes (mk_datetime 2024 7 3 14 0 45 500000)
     \<lparr>uuid = UUID ''6f1c'', description = ''Write report'', status = RUNNING,
      task_times =
        [(mk_datetime 2024 7 3 9 0 0 0, Some (mk_datetime 2024 7 3 9 1 30 250000)),
         (mk_datetime 2024 7 3 14 0 0 0, None)],
      task_notes = []\<rparr> = Inr (9 / 4)"
proof -
  let ?now = "mk_datetime 2024 7 3 14 0 45 500000"
  let ?t = "\<lparr>uuid = UUID ''6f1c'', description = ''Write report'', status = RUNNING,
      task_times =
        [(mk_datetime 2024 7 3 9 0 0 0, Some (mk_datetime 2024 7 3 9 1 30 250000)),
         (mk_datetime 2024 7 3 14 0 0 0, None)],
      task_notes = []\<rparr>"
  have h: "list_all (chronological ?now) (task_times ?t)"
    by (simp add: chronological_def dt_le_same_date datetime_eval)
  have v: "elapsed_minutes_spec ?now ?t = 9 / 4"
    by (simp add: elapsed_minutes_spec_def whole_seconds_same_date datetime_eval)
  from minutes_sums_whole_seconds [OF h] h v show ?thesis by simp
qed

text \<open>
  C1 as stated, for every task, fails: for the interval from 12:00:30 to 12:00:00 of one
  day the difference is \<^verbatim>\<open>timedelta(days=-1, seconds=86370)\<close>, \<open>minutes\<close> returns
  86370 / 60 = 1439.5, and the whole seconds between start and end are -30, half a minute
  backwards.
\<close>

theorem minutes_reversed_interval_counterexample:
  "minutes (mk_datetime 2024 7 3 13 0 0 0)
     \<lparr>uuid = Text ''6f1c'', description = ''Write report'', status = PAUSED,
      task_times = [(mk_datetime 2024 7 3 12 0 30 0, Some (mk_datetime 2024 7 3 12 0 0 0))],
      task_notes = []\<rparr> = Inr (2879 / 2) \<and>
   elapsed_minutes_spec (mk_datetime 2024 7 3 13 0 0 0)
     \<lparr>uuid = Text ''6f1c'', description = ''Write report'', status = PAUSED,
      task_times = [(mk_datetime 2024 7 3 12 0 30 0, Some (mk_datetime 2024 7 3 12 0 0 0))],
      task_notes = []\<rparr> = - 1 / 2"
  by (simp add: minutes_def elapsed_minutes_spec_def timedelta_seconds_same_date
      whole_seconds_same_date datetime_eval)

text \<open>
  C6, as amended. For every task with an interval whose end (or, for an unset end, the
  current instant) falls on another calendar day than its start, \<open>minutes\<close> raises the
  \<^verbatim>\<open>RuntimeError\<close> and returns no number. An end on an earlier day is such an end.
\<close>

theorem minutes_raises_on_other_day:
  assumes "iv \<in> set (task_times t)" and "date (end_or_now now iv) \<noteq> date (fst iv)"
  shows "minutes now t = Inl RuntimeError"
  using minutes_loop_other_day [OF assms, of 0] by (simp add: minutes_def)

text \<open>The theorem at a task whose second interval runs over midnight.\<close>

theorem minutes_raises_on_other_day_witness:
  "(mk_datetime 2024 7 3 23 50 0 0, Some (mk_datetime 2024 7 4 0 10 0 0))
     \<in> set [(mk_datetime 2024 7 3 9 0 0 0, Some (mk_datetime 2024 7 3 9 30 0 0)),
             (mk_datetime 2024 7 3 23 50 0 0, Some (mk_datetime 2024 7 4 0 10 0 0))] \<and>
   date (mk_datetime 2024 7 4 0 10 0 0) \<noteq> date (mk_datetime 2024 7 3 23 50 0 0) \<and>
   minutes (mk_datetime 2024 7 5 8 0 0 0)
     \<lparr>uuid = Text ''6f1c'', description = ''Write report'', status = COMPLETED,
      task_times =
        [(mk_datetime 2024 7 3 9 0 0 0, Some (mk_datetime 2024 7 3 9 30 0 0)),
         (mk_datetime 2024 7 3 23 50 0 0, Some (mk_datetime 2024 7 4 0 10 0 0))],
      task_notes = []\<rparr> = Inl RuntimeError"
proof -
  let ?iv = "(mk_datetime 2024 7 3 23 50 0 0, Some (mk_datetime 2024 7 4 0 10 0 0))"
  let ?now = "mk_datetime 2024 7 5 8 0 0 0"
  let ?t = "\<lparr>uuid = Text ''6f1c'', description = ''Write report'', status = COMPLETED,
      task_times =
        [(mk_datetime 2024 7 3 9 0 0 0, Some (mk_datetime 2024 7 3 9 30 0 0)), ?iv],
      task_notes = []\<rparr>"
  have m: "?iv \<in> set (task_times ?t)" by simp
  have d: "date (end_or_now ?now ?iv) \<noteq> date (fst ?iv)"
    by (simp add: datetime_eval)
  from minutes_raises_on_other_day [OF m d] d show ?thesis
    by (simp add: end_or_now_def)
qed

text \<open>
  C6 as stated fails: the end 09:00 predates the start 09:30 of the same day, and
  \<open>minutes\<close> raises nothing; it returns 1410 minutes (23.5 hours) for the interval.
\<close>

theorem minutes_same_day_reversed_counterexample:
  "dt_less (mk_datetime 2024 7 3 9 0 0 0) (mk_datetime 2024 7 3 9 30 0 0) \<and>
   minutes (mk_datetime 2024 7 3 18 0 0 0)
     \<lparr>uuid = Text ''6f1c'', description = ''Write report'', status = COMPLETED,
      task_times = [(mk_datetime 2024 7 3 9 30 0 0, Some (mk_datetime 2024 7 3 9 0 0 0))],
      task_notes = []\<rparr> = Inr 1410"
  by (simp add: minutes_def timedelta_seconds_same_date dt_less_same_date datetime_eval)

section \<open>The transitions: proofs\<close>

lemmas status_eval = CREATED_def RUNNING_def PAUSED_def COMPLETED_def

lemma close_last_not_running:
  "status t \<noteq> RUNNING \<Longrightarrow>
   close_last st now t = \<lparr>after = t, printed = [''Task is not running''], raised = None\<rparr>"
  by (simp add: close_last_def)

lemma close_last_open:
  assumes "status t = RUNNING" and "task_times t \<noteq> []"
    and "open_interval (last (task_times t))"
  shows "close_last st now t =
           \<lparr>after = t\<lparr>status := st,
                       task_times := (task_times t)[length (task_times t) - 1 :=
                                        (fst (last (task_times t)), Some now)]\<rparr>,
            printed = [], raised = None\<rparr>"
  using assms
  by (cases "last (task_times t)") (simp add: close_last_def open_interval_def Let_def)

lemma close_last_closed:
  assumes "status t = RUNNING" and "task_times t \<noteq> []"
    and "\<not> open_interval (last (task_times t))"
  shows "close_last st now t = \<lparr>after = t\<lparr>status := st\<rparr>, printed = [], raised = Some TypeError\<rparr>"
  using assms
  by (cases "last (task_times t)") (simp add: close_last_def open_interval_def Let_def)

lemma close_last_empty:
  assumes "status t = RUNNING" and "task_times t = []"
  shows "close_last st now t = \<lparr>after = t\<lparr>status := st\<rparr>, printed = [], raised = Some IndexError\<rparr>"
  using assms by (simp add: close_last_def)

text \<open>
  C4. For a task that is not \<^verbatim>\<open>RUNNING\<close>, \<open>pause\<close> and \<open>complete\<close> print the notice, raise
  nothing and leave the task as it was. For a \<^verbatim>\<open>RUNNING\<close> task whose last interval is
  open, \<open>pause\<close> sets the status to \<^verbatim>\<open>PAUSED\<close> and \<open>complete\<close> to \<^verbatim>\<open>COMPLETED\<close>; both
  put now as the end of the last interval and leave its start, every earlier interval,
  the length of the list and the other fields as they were. For a \<^verbatim>\<open>RUNNING\<close> task whose
  last interval is closed, both raise the \<^verbatim>\<open>TypeError\<close> and leave the intervals alone.
\<close>

theorem pause_complete_effect:
  "(status t \<noteq> RUNNING \<longrightarrow>
      pause now t = \<lparr>after = t, printed = [''Task is not running''], raised = None\<rparr> \<and>
      complete now t = \<lparr>after = t, printed = [''Task is not running''], raised = None\<rparr>) \<and>
   (status t = RUNNING \<and> task_times t \<noteq> [] \<and> open_interval (last (task_times t)) \<longrightarrow>
      raised (pause now t) = None \<and> raised (complete now t) = None \<and>
      status (after (pause now t)) = PAUSED \<and> status (after (complete now t)) = COMPLETED \<and>
      (\<forall>t' \<in> {after (pause now t), after (complete now t)}.
         length (task_times t') = length (task_times t) \<and>
         last (task_times t') = (fst (last (task_times t)), Some now) \<and>
         butlast (task_times t') = butlast (task_times t) \<and>
         uuid t' = uuid t \<and> description t' = description t \<and> task_notes t' = task_notes t)) \<and>
   (status t = RUNNING \<and> task_times t \<noteq> [] \<and> \<not> open_interval (last (task_times t)) \<longrightarrow>
      raised (pause now t) = Some TypeError \<and> raised (complete now t) = Some TypeError \<and>
      task_times (after (pause now t)) = task_times t \<and>
      task_times (after (complete now t)) = task_times t)"
proof (intro conjI impI)
  assume "status t \<noteq> RUNNING"
  then show "pause now t = \<lparr>after = t, printed = [''Task is not running''], raised = None\<rparr>"
    and "complete now t = \<lparr>after = t, printed = [''Task is not running''], raised = None\<rparr>"
    by (simp_all add: pause_def complete_def close_last_not_running)
next
  assume a: "status t = RUNNING \<and> task_times t \<noteq> [] \<and> open_interval (last (task_times t))"
  then have p: "\<And>st. close_last st now t =
           \<lparr>after = t\<lparr>status := st,
                       task_times := (task_times t)[length (task_times t) - 1 :=
                                        (fst (last (task_times t)), Some now)]\<rparr>,
            printed = [], raised = None\<rparr>"
    by (simp add: close_last_open)
  show "raised (pause now t) = None" "raised (complete now t) = None"
    "status (after (pause now t)) = PAUSED" "status (after (complete now t)) = COMPLETED"
    by (simp_all add: pause_def complete_def p)
  show "\<forall>t' \<in> {after (pause now t), after (complete now t)}.
         length (task_times t') = length (task_times t) \<and>
         last (task_times t') = (fst (last (task_times t)), Some now) \<and>
         butlast (task_times t') = butlast (task_times t) \<and>
         uuid t' = uuid t \<and> description t' = description t \<and> task_notes t' = task_notes t"
    using a by (simp add: pause_def complete_def p last_list_update butlast_list_update)
next
  assume a: "status t = RUNNING \<and> task_times t \<noteq> [] \<and> \<not> open_interval (last (task_times t))"
  then show "raised (pause now t) = Some TypeError" "raised (complete now t) = Some TypeError"
    "task_times (after (pause now t)) = task_times t"
    "task_times (after (complete now t)) = task_times t"
    by (simp_all add: pause_def complete_def close_last_closed)
qed


text \<open>
  The theorem at a created task, at a running task with an open interval, and at a
  running task whose only interval is closed.
\<close>

theorem pause_complete_effect_witness:
  "pause (mk_datetime 2024 7 3 9 1 30 0) (report_task CREATED [])
     = \<lparr>after = report_task CREATED [], printed = [''Task is not running''], raised = None\<rparr> \<and>
   status (after (pause (mk_datetime 2024 7 3 9 1 30 0)
       (report_task RUNNING [(mk_datetime 2024 7 3 9 0 0 0, None)]))) = PAUSED \<and>
   last (task_times (after (complete (mk_datetime 2024 7 3 9 1 30 0)
       (report_task RUNNING [(mk_datetime 2024 7 3 9 0 0 0, None)]))))
     = (mk_datetime 2024 7 3 9 0 0 0, Some (mk_datetime 2024 7 3 9 1 30 0)) \<and>
   raised (pause (mk_datetime 2024 7 3 9 1 30 0)
       (report_task RUNNING
          [(mk_datetime 2024 7 3 8 0 0 0, Some (mk_datetime 2024 7 3 8 30 0 0))]))
     = Some TypeError"
proof -
  let ?now = "mk_datetime 2024 7 3 9 1 30 0"
  let ?a = "report_task CREATED []"
  let ?b = "report_task RUNNING [(mk_datetime 2024 7 3 9 0 0 0, None)]"
  let ?c = "report_task RUNNING
              [(mk_datetime 2024 7 3 8 0 0 0, Some (mk_datetime 2024 7 3 8 30 0 0))]"
  have a: "status ?a \<noteq> RUNNING"
    by (simp add: report_task_def status_eval)
  have b: "status ?b = RUNNING \<and> task_times ?b \<noteq> [] \<and> open_interval (last (task_times ?b))"
    by (simp add: report_task_def open_interval_def)
  have c: "status ?c = RUNNING \<and> task_times ?c \<noteq> [] \<and> \<not> open_interval (last (task_times ?c))"
    by (simp add: report_task_def open_interval_def)
  have lb: "fst (last (task_times ?b)) = mk_datetime 2024 7 3 9 0 0 0"
    by (simp add: report_task_def)
  from pause_complete_effect [of ?a ?now] a
  have 1: "pause ?now ?a = \<lparr>after = ?a, printed = [''Task is not running''], raised = None\<rparr>"
    by blast
  from pause_complete_effect [of ?b ?now] b
  have 2: "status (after (pause ?now ?b)) = PAUSED"
    and 3: "last (task_times (after (complete ?now ?b))) = (fst (last (task_times ?b)), Some ?now)"
    by blast+
  from pause_complete_effect [of ?c ?now] c
  have 4: "raised (pause ?now ?c) = Some TypeError"
    by blast
  from 1 2 3 4 lb show ?thesis by simp
qed

text \<open>
  C3 does not hold of \<open>start\<close>: at a \<^verbatim>\<open>COMPLETED\<close> task whose interval is closed it
  raises nothing, leaves the status \<^verbatim>\<open>COMPLETED\<close> and appends an open interval.
\<close>

theorem start_on_completed_task:
  "start (mk_datetime 2024 7 3 15 0 0 0)
     (report_task COMPLETED [(mk_datetime 2024 7 3 9 0 0 0, Some (mk_datetime 2024 7 3 9 30 0 0))])
   = \<lparr>after = report_task COMPLETED
                 [(mk_datetime 2024 7 3 9 0 0 0, Some (mk_datetime 2024 7 3 9 30 0 0)),
                  (mk_datetime 2024 7 3 15 0 0 0, None)],
      printed = [], raised = None\<rparr>"
  by (simp add: start_def report_task_def status_eval)

subsection \<open>The interval invariant\<close>

lemma set_butlast_last: "xs \<noteq> [] \<Longrightarrow> set xs = insert (last xs) (set (butlast xs))"
  by (induction xs) auto

lemma times_invariant_iff:
  "times_invariant ts = list_all (\<lambda>iv. \<not> open_interval iv) (butlast ts)"
proof (cases "ts = []")
  case True
  then show ?thesis by (simp add: times_invariant_def)
next
  case False
  then have ts: "ts = butlast ts @ [last ts]" by simp
  have "list_all (\<lambda>iv. \<not> open_interval iv) (butlast ts) \<Longrightarrow>
        filter open_interval (butlast ts) = []"
    by (simp add: list_all_iff filter_empty_conv)
  then have "list_all (\<lambda>iv. \<not> open_interval iv) (butlast ts) \<Longrightarrow>
        length (filter open_interval ts) \<le> 1"
    by (subst ts) simp
  then show ?thesis by (auto simp: times_invariant_def)
qed

lemma start_times:
  "task_times (after (start now t)) =
     (if task_times t \<noteq> [] \<and> open_interval (last (task_times t)) then task_times t
      else task_times t @ [(now, None)])"
  by (simp add: start_def open_interval_def Let_def)

lemma start_keeps_invariant:
  assumes "times_invariant (task_times t)"
  shows "times_invariant (task_times (after (start now t)))"
proof (cases "task_times t \<noteq> [] \<and> open_interval (last (task_times t))")
  case True
  with assms show ?thesis by (simp add: start_times)
next
  case False
  have "list_all (\<lambda>iv. \<not> open_interval iv) (task_times t)"
  proof (cases "task_times t = []")
    case True
    then show ?thesis by simp
  next
    case nonempty: False
    from assms have "\<forall>x \<in> set (butlast (task_times t)). \<not> open_interval x"
      by (simp add: times_invariant_iff list_all_iff)
    moreover from False nonempty have "\<not> open_interval (last (task_times t))" by simp
    ultimately show ?thesis
      by (simp add: list_all_iff set_butlast_last [OF nonempty])
  qed
  with False show ?thesis
    by (auto simp: start_times times_invariant_iff list_all_iff dest: in_set_butlastD)
qed

lemma close_last_times:
  "task_times (after (close_last st now t)) =
     (if status t = RUNNING \<and> task_times t \<noteq> [] \<and> open_interval (last (task_times t))
      then (task_times t)[length (task_times t) - 1 := (fst (last (task_times t)), Some now)]
      else task_times t)"
proof (cases "status t = RUNNING")
  case False
  then show ?thesis by (simp add: close_last_not_running)
next
  case True
  then show ?thesis
    by (cases "task_times t = []"; cases "open_interval (last (task_times t))")
      (simp_all add: close_last_empty close_last_open close_last_closed)
qed

lemma close_last_keeps_invariant:
  assumes "times_invariant (task_times t)"
  shows "times_invariant (task_times (after (close_last st now t)))"
  using assms by (simp add: close_last_times times_invariant_iff butlast_list_update)

lemma add_note_times: "task_times (after (add_note n t)) = task_times t"
  by (simp add: add_note_def)

lemma length_strftime: "length (strftime d) = length (year_digits (year d)) + 12"
  by (simp add: strftime_def two_digits_def)

lemma lower_strftime_not_none: "lower (strftime d) \<noteq> ''none''"
proof
  assume "lower (strftime d) = ''none''"
  then have "length (lower (strftime d)) = length ''none''" by (rule arg_cong)
  then show False by (simp add: lower_def length_strftime)
qed

lemma lower_None: "lower ''None'' = ''none''"
  by (simp add: lower_def lower_char_def)

lemma serialize_interval_simps:
  "serialize_interval (x, None) = (strftime x, ''None'')"
  "serialize_interval (x, Some e) = (strftime x, strftime e)"
  by (simp_all add: serialize_interval_def)

lemma map_sum_Some_Inr: "map_sum id Some z = Inr v \<longleftrightarrow> (\<exists>w. z = Inr w \<and> v = Some w)"
  by (cases z) auto

lemma deserialize_serialize_open:
  "deserialize_times (map serialize_interval ts) = Inr ts' \<Longrightarrow>
   map open_interval ts' = map open_interval ts"
proof (induction ts arbitrary: ts')
  case Nil
  then show ?case by simp
next
  case (Cons iv ts)
  obtain x y where iv: "iv = (x, y)" by (cases iv)
  show ?case
  proof (cases y)
    case None
    with Cons.prems iv obtain x' rest where
      "ts' = (x', None) # rest" "deserialize_times (map serialize_interval ts) = Inr rest"
      by (auto simp: serialize_interval_simps lower_None split: sum.splits)
    with Cons.IH [of rest] None iv show ?thesis by (simp add: open_interval_def)
  next
    case (Some e)
    with Cons.prems iv obtain x' e' rest where
      "ts' = (x', Some e') # rest" "deserialize_times (map serialize_interval ts) = Inr rest"
      by (auto simp: serialize_interval_simps lower_strftime_not_none map_sum_Some_Inr
          split: sum.splits)
    with Cons.IH [of rest] Some iv show ?thesis by (simp add: open_interval_def)
  qed
qed

lemma times_invariant_cong:
  assumes "map open_interval ts' = map open_interval ts"
  shows "times_invariant ts' = times_invariant ts"
proof -
  have "list_all (\<lambda>iv. \<not> open_interval iv) (butlast us)
          = list_all Not (butlast (map open_interval us))" for us
    by (simp add: map_butlast [symmetric] list_all_iff)
  with assms show ?thesis by (simp add: times_invariant_iff)
qed

lemma deserialize_task_times:
  "deserialize (serialize t) = Inr t' \<Longrightarrow>
   deserialize_times (map serialize_interval (task_times t)) = Inr (task_times t')"
  by (auto simp: deserialize_def serialize_def split: sum.splits)

lemma reachable_times_invariant: "reachable t \<Longrightarrow> times_invariant (task_times t)"
proof (induction rule: reachable.induct)
  case (created u descr)
  show ?case by (simp add: times_invariant_def)
next
  case (started t now)
  from started.IH show ?case by (rule start_keeps_invariant)
next
  case (paused t now)
  from paused.IH show ?case unfolding pause_def by (rule close_last_keeps_invariant)
next
  case (completed t now)
  from completed.IH show ?case unfolding complete_def by (rule close_last_keeps_invariant)
next
  case (noted t n)
  from noted.IH show ?case by (simp only: add_note_times)
next
  case (reloaded t u)
  have "map open_interval (task_times u) = map open_interval (task_times t)"
    by (rule deserialize_serialize_open [OF deserialize_task_times [OF reloaded.hyps(2)]])
  from times_invariant_cong [OF this] reloaded.IH show ?case by simp
qed

lemma open_interval_is_last:
  assumes "times_invariant ts" and "iv \<in> set ts" and "open_interval iv"
  shows "ts \<noteq> [] \<and> open_interval (last ts)"
proof -
  from assms(2) have ne: "ts \<noteq> []" by auto
  with assms(2) have "iv \<in> set (butlast ts) \<or> iv = last ts"
    by (auto simp: set_butlast_last)
  moreover from assms(1) have "\<forall>x \<in> set (butlast ts). \<not> open_interval x"
    by (simp add: times_invariant_iff list_all_iff)
  ultimately show ?thesis using assms(3) ne by auto
qed

text \<open>
  C2. In every task the program can hold (made by \<open>add_task\<close>, changed by \<open>start\<close>,
  \<open>pause\<close>, \<open>complete\<close> and \<open>add_note\<close>, written to the file and read back) at most one
  interval is open and no interval but the last is. Each of the four operations keeps
  that invariant, whether it returns or raises. When the invariant holds and an interval
  is open, \<open>start\<close> raises the \<^verbatim>\<open>TypeError\<close> and the interval list stays as it was.
\<close>

theorem one_open_interval_last:
  "(reachable t \<longrightarrow> times_invariant (task_times t)) \<and>
   (times_invariant (task_times t) \<longrightarrow>
      times_invariant (task_times (after (start now t))) \<and>
      times_invariant (task_times (after (pause now t))) \<and>
      times_invariant (task_times (after (complete now t))) \<and>
      times_invariant (task_times (after (add_note note t)))) \<and>
   (times_invariant (task_times t) \<and> (\<exists>iv \<in> set (task_times t). open_interval iv) \<longrightarrow>
      raised (start now t) = Some TypeError \<and>
      task_times (after (start now t)) = task_times t)"
proof (intro conjI impI)
  assume "reachable t"
  then show "times_invariant (task_times t)" by (rule reachable_times_invariant)
next
  assume inv: "times_invariant (task_times t)"
  then show "times_invariant (task_times (after (start now t)))"
    by (rule start_keeps_invariant)
  from inv show "times_invariant (task_times (after (pause now t)))"
    and "times_invariant (task_times (after (complete now t)))"
    by (simp_all add: pause_def complete_def close_last_keeps_invariant)
  from inv show "times_invariant (task_times (after (add_note note t)))"
    by (simp add: add_note_times)
next
  assume "times_invariant (task_times t) \<and> (\<exists>iv \<in> set (task_times t). open_interval iv)"
  then have l: "task_times t \<noteq> [] \<and> open_interval (last (task_times t))"
    by (auto dest: open_interval_is_last)
  then show "raised (start now t) = Some TypeError"
    by (simp add: start_def open_interval_def Let_def)
  from l show "task_times (after (start now t)) = task_times t"
    by (simp add: start_times)
qed


text \<open>The theorem at the task of the scenario after its first \<open>start\<close>.\<close>

theorem one_open_interval_last_witness:
  "reachable (report_task RUNNING [(mk_datetime 2024 7 3 9 0 0 0, None)]) \<and>
   times_invariant [(mk_datetime 2024 7 3 9 0 0 0, None)] \<and>
   times_invariant (task_times (after (pause (mk_datetime 2024 7 3 9 1 30 0)
      (report_task RUNNING [(mk_datetime 2024 7 3 9 0 0 0, None)])))) \<and>
   raised (start (mk_datetime 2024 7 3 9 1 30 0)
      (report_task RUNNING [(mk_datetime 2024 7 3 9 0 0 0, None)])) = Some TypeError \<and>
   task_times (after (start (mk_datetime 2024 7 3 9 1 30 0)
      (report_task RUNNING [(mk_datetime 2024 7 3 9 0 0 0, None)])))
     = [(mk_datetime 2024 7 3 9 0 0 0, None)]"
proof -
  let ?now0 = "mk_datetime 2024 7 3 9 0 0 0"
  let ?now1 = "mk_datetime 2024 7 3 9 1 30 0"
  let ?r = "report_task RUNNING [(?now0, None)]"
  have "reachable (report_task CREATED [])"
    by (simp add: report_task_def reachable.created)
  then have "reachable (after (start ?now0 (report_task CREATED [])))"
    by (rule reachable.started)
  moreover have "after (start ?now0 (report_task CREATED [])) = ?r"
    by (simp add: start_def report_task_def)
  ultimately have r: "reachable ?r" by simp
  have o: "\<exists>iv \<in> set (task_times ?r). open_interval iv"
    by (simp add: report_task_def open_interval_def)
  have tt: "task_times ?r = [(?now0, None)]"
    by (simp add: report_task_def)
  from one_open_interval_last [of ?r ?now1 "''half done''"] r
  have i: "times_invariant (task_times ?r)"
    and p: "times_invariant (task_times (after (pause ?now1 ?r)))"
    by blast+
  from one_open_interval_last [of ?r ?now1 "''half done''"] i o
  have s: "raised (start ?now1 ?r) = Some TypeError"
    and u: "task_times (after (start ?now1 ?r)) = task_times ?r"
    by blast+
  from r i p s u tt show ?thesis by simp
qed

section \<open>Serialisation: proofs\<close>

subsection \<open>Writing a timestamp and reading it back\<close>

lemma below_ten: "n < 10 \<Longrightarrow> n \<in> {0, 1, 2, 3, 4, 5, 6, 7, 8, 9 :: nat}"
  by auto

lemma digit_val_digit_char: "n < 10 \<Longrightarrow> digit_val (digit_char n) = n"
  by (drule below_ten) (auto simp: digit_char_def digit_val_def)

lemma is_digit_digit_char: "is_digit (digit_char n)"
proof -
  have "n mod 10 < 10" by simp
  then have "n mod 10 \<in> {0, 1, 2, 3, 4, 5, 6, 7, 8, 9 :: nat}" by (rule below_ten)
  then show ?thesis by (auto simp: digit_char_def is_digit_def)
qed

lemma digit_char_zero: "n < 10 \<Longrightarrow> digit_char n = CHR ''0'' \<longleftrightarrow> n = 0"
  by (drule below_ten) (auto simp: digit_char_def)

lemma digit_char_not_space: "digit_char n \<noteq> CHR '' ''"
  using is_digit_digit_char [of n] by (auto simp: is_digit_def)

lemma digit_char_digit_val: "is_digit c \<Longrightarrow> digit_char (digit_val c) = c"
  by (auto simp: is_digit_def digit_char_def digit_val_def)

lemma digit_val_below_ten: "is_digit c \<Longrightarrow> digit_val c < 10"
  by (auto simp: is_digit_def digit_val_def)

lemma digit_val_zero: "is_digit c \<Longrightarrow> digit_val c = 0 \<longleftrightarrow> c = CHR ''0''"
  by (auto simp: is_digit_def digit_val_def)

lemma four_digits_sum:
  "1000 * (y div 1000) + 100 * (y div 100 mod 10) + 10 * (y div 10 mod 10) + y mod 10 = (y :: nat)"
proof -
  have "y div 10 div 10 = y div (10 * 10)" "y div 10 div 10 div 10 = y div (10 * 10 * 10)"
    by (simp_all only: div_mult2_eq)
  then have nest: "y div 100 = y div 10 div 10" "y div 1000 = y div 10 div 10 div 10"
    by simp_all
  have gen: "y = 10 * q1 + r0 \<Longrightarrow> q1 = 10 * q2 + r1 \<Longrightarrow> q2 = 10 * q3 + r2 \<Longrightarrow>
      1000 * q3 + 100 * r2 + 10 * r1 + r0 = y" for q1 q2 q3 r0 r1 r2 :: nat
    by linarith
  show ?thesis
    unfolding nest
    by (rule gen [of "y div 10" "y mod 10" "y div 10 div 10" "y div 10 mod 10"
          "y div 10 div 10 div 10" "y div 10 div 10 mod 10"]) simp_all
qed

lemma year_group_four_digits:
  assumes "y < 10000"
  shows "year_group (four_digits y @ rest) = Some (y, rest)"
proof -
  from assms have "y div 1000 < 10" by simp
  moreover have "y div 100 mod 10 < 10" "y div 10 mod 10 < 10" "y mod 10 < 10" by simp_all
  ultimately have "year_group (four_digits y @ rest) =
      Some (1000 * (y div 1000) + 100 * (y div 100 mod 10) + 10 * (y div 10 mod 10) + y mod 10,
            rest)"
    by (simp add: four_digits_def is_digit_digit_char digit_val_digit_char)
  then show ?thesis by (simp only: four_digits_sum)
qed

lemma digits12_two_digits:
  assumes "n < 100"
  shows "digits12 (two_digits n @ rest) = Some (n, rest)"
proof -
  from assms have "n div 10 < 10" by simp
  moreover have "n mod 10 < 10" by simp
  ultimately show ?thesis
    by (simp add: two_digits_def is_digit_digit_char digit_val_digit_char)
qed

lemma ranged_two_digits:
  "lo \<le> n \<Longrightarrow> n \<le> hi \<Longrightarrow> n < 100 \<Longrightarrow> ranged lo hi (two_digits n @ rest) = Some (n, rest)"
  by (simp add: ranged_def digits12_two_digits)

lemma ranged_two_digits_end:
  "lo \<le> n \<Longrightarrow> n \<le> hi \<Longrightarrow> n < 100 \<Longrightarrow> ranged lo hi (two_digits n) = Some (n, [])"
  using ranged_two_digits [of lo n hi "[]"] by simp

lemma day_group_two_digits:
  assumes "1 \<le> n" and "n \<le> 31"
  shows "day_group (two_digits n @ rest) = Some (n, rest)"
proof -
  have "two_digits n @ rest = digit_char (n div 10) # digit_char (n mod 10) # rest"
    by (simp add: two_digits_def)
  then have "day_group (two_digits n @ rest) = ranged 1 31 (two_digits n @ rest)"
    by (simp add: digit_char_not_space)
  with assms show ?thesis by (simp add: ranged_two_digits)
qed

lemma year_digits_from_1000:
  assumes "1000 \<le> y" and "y < 10000"
  shows "year_digits y = four_digits y"
proof -
  from assms have "y div 1000 < 10" "y div 1000 \<noteq> 0" by simp_all
  then have "digit_char (y div 1000) \<noteq> CHR ''0''" by (simp add: digit_char_zero)
  then show ?thesis by (simp add: year_digits_def four_digits_def)
qed

lemma days_in_month_le: "days_in_month y m \<le> 31"
  by (simp add: days_in_month_def)

lemma parse_fields_strftime:
  assumes "valid_datetime d" and "1000 \<le> year d"
  shows "parse_fields (strftime d) = Some (year d, month d, day d, hour d, minute d)"
proof -
  from assms have y: "year d < 10000" and m: "1 \<le> month d" "month d \<le> 12"
    and dd: "1 \<le> day d" "day d \<le> 31" and h: "hour d \<le> 23" and mi: "minute d \<le> 59"
    using days_in_month_le [of "year d" "month d"] by (auto simp: valid_datetime_def)
  show ?thesis
    unfolding parse_fields_def strftime_def year_digits_from_1000 [OF assms(2) y]
      month_group_def hour_group_def minute_group_def
    using m dd h mi
    by (simp add: year_group_four_digits [OF y] ranged_two_digits ranged_two_digits_end
        day_group_two_digits)
qed

lemma strptime_strftime:
  assumes "valid_datetime d" and "1000 \<le> year d"
  shows "strptime (strftime d) = Inr (truncate_minute d)"
  using assms
  by (simp add: strptime_def parse_fields_strftime truncate_minute_def valid_datetime_def)


lemma digits_of_sum:
  fixes a b c d :: nat
  assumes "a < 10" "b < 10" "c < 10" "d < 10"
  shows "(1000 * a + 100 * b + 10 * c + d) div 1000 = a"
    and "(1000 * a + 100 * b + 10 * c + d) div 100 mod 10 = b"
    and "(1000 * a + 100 * b + 10 * c + d) div 10 mod 10 = c"
    and "(1000 * a + 100 * b + 10 * c + d) mod 10 = d"
proof -
  let ?n = "1000 * a + 100 * b + 10 * c + d"
  have m: "(10 * k + r) mod 10 = r" if "r < 10" for k r :: nat
    using that by simp
  from assms show "?n div 1000 = a" by (intro div_nat_eqI) simp_all
  from assms have "?n div 100 = 10 * a + b" by (intro div_nat_eqI) simp_all
  then show "?n div 100 mod 10 = b" using assms(2) by (simp only: m)
  from assms have "?n div 10 = 10 * (10 * a + b) + c" by (intro div_nat_eqI) simp_all
  then show "?n div 10 mod 10 = c" using assms(3) by (simp only: m)
  have "?n = 10 * (100 * a + 10 * b + c) + d" by simp
  then show "?n mod 10 = d" using assms(4) by (simp only: m)
qed

lemma two_digits_val:
  assumes "is_digit a" and "is_digit b"
  shows "two_digits (10 * digit_val a + digit_val b) = [a, b]"
proof -
  from assms have "digit_val a < 10" "digit_val b < 10" by (simp_all add: digit_val_below_ten)
  then have "(10 * digit_val a + digit_val b) div 10 = digit_val a"
    "(10 * digit_val a + digit_val b) mod 10 = digit_val b"
    by simp_all
  with assms show ?thesis by (simp only: two_digits_def digit_char_digit_val)
qed

lemma four_digits_val:
  assumes "is_digit a" and "is_digit b" and "is_digit c" and "is_digit d"
  shows "four_digits (1000 * digit_val a + 100 * digit_val b + 10 * digit_val c + digit_val d)
           = [a, b, c, d]"
proof -
  from assms have "digit_val a < 10" "digit_val b < 10" "digit_val c < 10" "digit_val d < 10"
    by (simp_all add: digit_val_below_ten)
  note digits_of_sum [OF this]
  with assms show ?thesis by (simp only: four_digits_def digit_char_digit_val)
qed

lemma wf_timestamp_strftime:
  assumes "wf_timestamp s"
  shows "\<exists>d. valid_datetime d \<and> 1000 \<le> year d \<and> whole_minute d \<and> strftime d = s"
  using assms
proof (rule wf_timestamp.elims(2))
  fix y1 y2 y3 y4 s1 m1 m2 s2 d1 d2 s3 h1 h2 s4 n1 n2
  assume s: "s = [y1, y2, y3, y4, s1, m1, m2, s2, d1, d2, s3, h1, h2, s4, n1, n2]"
  assume c: "list_all is_digit [y1, y2, y3, y4, m1, m2, d1, d2, h1, h2, n1, n2] \<and>
      s1 = CHR ''-'' \<and> s2 = CHR ''-'' \<and> s3 = CHR ''T'' \<and> s4 = CHR '':'' \<and>
      y1 \<noteq> CHR ''0'' \<and>
      1 \<le> 10 * digit_val m1 + digit_val m2 \<and> 10 * digit_val m1 + digit_val m2 \<le> 12 \<and>
      1 \<le> 10 * digit_val d1 + digit_val d2 \<and>
      10 * digit_val d1 + digit_val d2
        \<le> days_in_month
             (1000 * digit_val y1 + 100 * digit_val y2 + 10 * digit_val y3 + digit_val y4)
             (10 * digit_val m1 + digit_val m2) \<and>
      10 * digit_val h1 + digit_val h2 \<le> 23 \<and>
      10 * digit_val n1 + digit_val n2 \<le> 59"
  let ?Y = "1000 * digit_val y1 + 100 * digit_val y2 + 10 * digit_val y3 + digit_val y4"
  let ?M = "10 * digit_val m1 + digit_val m2"
  let ?D = "10 * digit_val d1 + digit_val d2"
  let ?H = "10 * digit_val h1 + digit_val h2"
  let ?N = "10 * digit_val n1 + digit_val n2"
  let ?d = "mk_datetime ?Y ?M ?D ?H ?N 0 0"
  from c have dig: "is_digit y1" "is_digit y2" "is_digit y3" "is_digit y4" "is_digit m1"
    "is_digit m2" "is_digit d1" "is_digit d2" "is_digit h1" "is_digit h2" "is_digit n1"
    "is_digit n2"
    by simp_all
  from dig have "digit_val y1 < 10" "digit_val y2 < 10" "digit_val y3 < 10" "digit_val y4 < 10"
    by (simp_all add: digit_val_below_ten)
  moreover from c dig have "digit_val y1 \<noteq> 0" by (simp add: digit_val_zero)
  ultimately have Y: "1000 \<le> ?Y" "?Y < 10000" by linarith+
  from c Y have v: "valid_datetime ?d"
    by (simp add: valid_datetime_def mk_datetime_def)
  have w: "whole_minute ?d" by (simp add: whole_minute_def mk_datetime_def)
  have "strftime ?d = [y1, y2, y3, y4] @ ''-'' @ [m1, m2] @ ''-'' @ [d1, d2] @ ''T''
      @ [h1, h2] @ '':'' @ [n1, n2]"
    unfolding strftime_def
    by (simp only: mk_datetime_def datetime.simps year_digits_from_1000 [OF Y]
        four_digits_val [OF dig(1-4)] two_digits_val [OF dig(5,6)] two_digits_val [OF dig(7,8)]
        two_digits_val [OF dig(9,10)] two_digits_val [OF dig(11,12)])
  with s c have "strftime ?d = s" by simp
  with v w Y(1) show ?thesis
    by (intro exI [of _ ?d]) (simp add: mk_datetime_def)
qed

lemma truncate_whole_minute: "whole_minute d \<Longrightarrow> truncate_minute d = d"
  by (simp add: whole_minute_def truncate_minute_def)

lemma wf_timestamp_strptime:
  assumes "wf_timestamp s"
  shows "\<exists>d. strptime s = Inr d \<and> strftime d = s"
proof -
  from wf_timestamp_strftime [OF assms] obtain d where
    d: "valid_datetime d" "1000 \<le> year d" "whole_minute d" "strftime d = s"
    by blast
  from strptime_strftime [OF d(1,2)] d(3,4) have "strptime s = Inr d"
    by (simp add: truncate_whole_minute)
  with d(4) show ?thesis by blast
qed

lemma wf_timestamp_length: "wf_timestamp s \<Longrightarrow> length s = 16"
  by (erule wf_timestamp.elims(2)) simp

lemma wf_timestamp_not_none: "wf_timestamp s \<Longrightarrow> lower s \<noteq> ''none''"
proof
  assume "wf_timestamp s" and "lower s = ''none''"
  from this(2) have "length (lower s) = length ''none''" by (rule arg_cong)
  with \<open>wf_timestamp s\<close> show False by (simp add: lower_def wf_timestamp_length)
qed





lemma deserialize_times_Cons_None:
  "strptime a = Inr x \<Longrightarrow> deserialize_times ts = Inr ivs \<Longrightarrow>
   deserialize_times ((a, ''None'') # ts) = Inr ((x, None) # ivs)"
  by (simp add: lower_None)

lemma deserialize_times_Cons_Some:
  "strptime a = Inr x \<Longrightarrow> strptime b = Inr y \<Longrightarrow> lower b \<noteq> ''none'' \<Longrightarrow>
   deserialize_times ts = Inr ivs \<Longrightarrow>
   deserialize_times ((a, b) # ts) = Inr ((x, Some y) # ivs)"
  by simp

lemma deserialize_pair_wf:
  assumes "wf_pair ''None'' p" and "deserialize_times ts = Inr ivs"
  shows "\<exists>iv. deserialize_times (p # ts) = Inr (iv # ivs) \<and> serialize_interval iv = p"
proof -
  obtain a b where p: "p = (a, b)" by (cases p)
  from assms(1) have a: "wf_timestamp a" and b: "b = ''None'' \<or> wf_timestamp b"
    unfolding p wf_pair_def by simp_all
  from wf_timestamp_strptime [OF a] obtain x where x: "strptime a = Inr x" "strftime x = a"
    by blast
  show ?thesis
  proof (cases "b = ''None''")
    case True
    have "deserialize_times (p # ts) = Inr ((x, None) # ivs)"
      unfolding p True by (rule deserialize_times_Cons_None [OF x(1) assms(2)])
    moreover have "serialize_interval (x, None) = p"
      unfolding p True by (simp add: serialize_interval_simps x(2))
    ultimately show ?thesis by blast
  next
    case False
    with b have wb: "wf_timestamp b" by simp
    from wf_timestamp_strptime [OF wb] obtain y where y: "strptime b = Inr y" "strftime y = b"
      by blast
    have "deserialize_times (p # ts) = Inr ((x, Some y) # ivs)"
      unfolding p
      by (rule deserialize_times_Cons_Some [OF x(1) y(1) wf_timestamp_not_none [OF wb] assms(2)])
    moreover have "serialize_interval (x, Some y) = p"
      unfolding p by (simp add: serialize_interval_simps x(2) y(2))
    ultimately show ?thesis by blast
  qed
qed

lemma deserialize_times_wf:
  assumes "list_all (wf_pair ''None'') ts"
  shows "\<exists>ivs. deserialize_times ts = Inr ivs \<and> map serialize_interval ivs = ts"
  using assms
proof (induction ts)
  case Nil
  then show ?case by simp
next
  case (Cons p ts)
  from Cons.prems have "wf_pair ''None'' p" and "list_all (wf_pair ''None'') ts" by simp_all
  from Cons.IH [OF this(2)] obtain ivs where
    ivs: "deserialize_times ts = Inr ivs" "map serialize_interval ivs = ts"
    by blast
  from deserialize_pair_wf [OF \<open>wf_pair ''None'' p\<close> ivs(1)] obtain iv where
    iv: "deserialize_times (p # ts) = Inr (iv # ivs)" "serialize_interval iv = p"
    by blast
  from ivs(2) iv(2) have "map serialize_interval (iv # ivs) = p # ts"
    by (simp only: list.map)
  with iv(1) show ?case by (intro exI [of _ "iv # ivs"] conjI)
qed


text \<open>
  C5, as amended. For every well-formed task record \<open>x\<close> (the keys \<^verbatim>\<open>uuid\<close>,
  \<^verbatim>\<open>description\<close>, \<^verbatim>\<open>status\<close>, \<^verbatim>\<open>times\<close> and \<^verbatim>\<open>notes\<close>; every start a timestamp
  \<^verbatim>\<open>YYYY-MM-DDTHH:MM\<close> of a real date from the year 1000 on; every end such a timestamp
  or the sentinel \<^verbatim>\<open>None\<close>, the text \<open>serialize\<close> writes for an open interval),
  \<open>deserialize\<close> returns a task and \<open>serialize\<close> of that task is \<open>x\<close>.
\<close>

theorem serialize_deserialize_roundtrip:
  assumes "wf_record ''None'' x"
  shows "\<exists>t. deserialize x = Inr t \<and> serialize t = x"
proof -
  from assms obtain u de st ts ns where
    f: "t_uuid x = Some u" "t_description x = Some de" "t_status x = Some st"
      "t_times x = Some ts" "t_notes x = Some ns" "t_minutes x = None"
    and w: "list_all (wf_pair ''None'') ts"
    by (auto simp: wf_record_def split: option.splits)
  from deserialize_times_wf [OF w] obtain ivs where
    ivs: "deserialize_times ts = Inr ivs" "map serialize_interval ivs = ts"
    by (elim exE conjE)
  let ?t = "\<lparr>uuid = Text u, description = de, status = st, task_times = ivs, task_notes = ns\<rparr>"
  from f ivs(1) have d: "deserialize x = Inr ?t"
    by (simp add: deserialize_def)
  from f ivs(2) have "serialize ?t = x"
    by (cases x) (simp add: serialize_def)
  with d show ?thesis by (intro exI [of _ ?t] conjI)
qed

lemmas timestamp_eval =
  strptime_def parse_fields_def month_group_def hour_group_def minute_group_def ranged_def
  is_digit_def digit_val_def days_in_month_def strftime_def year_digits_def four_digits_def
  two_digits_def digit_char_def lower_def lower_char_def

text \<open>The theorem at a record with a closed and an open interval.\<close>

theorem serialize_deserialize_roundtrip_witness:
  "wf_record ''None''
     (report_record ''RUNNING''
        [(''2024-07-03T09:00'', ''2024-07-03T09:30''), (''2024-07-03T14:00'', ''None'')]) \<and>
   (\<exists>t. deserialize (report_record ''RUNNING''
            [(''2024-07-03T09:00'', ''2024-07-03T09:30''), (''2024-07-03T14:00'', ''None'')])
          = Inr t \<and>
        serialize t = report_record ''RUNNING''
            [(''2024-07-03T09:00'', ''2024-07-03T09:30''), (''2024-07-03T14:00'', ''None'')])"
proof -
  let ?x = "report_record ''RUNNING''
        [(''2024-07-03T09:00'', ''2024-07-03T09:30''), (''2024-07-03T14:00'', ''None'')]"
  have w: "wf_record ''None'' ?x"
    by (simp add: wf_record_def wf_pair_def report_record_def is_digit_def digit_val_def
        days_in_month_def)
  from serialize_deserialize_roundtrip [OF w] w show ?thesis by (intro conjI)
qed

text \<open>
  C5 as stated, with the sentinel \<^verbatim>\<open>none\<close>, fails: \<open>deserialize\<close> reads the lower-case
  sentinel as an open end, and \<open>serialize\<close> writes the open end back as \<^verbatim>\<open>None\<close>.
\<close>

theorem lower_case_sentinel_counterexample:
  "wf_record ''none'' (report_record ''RUNNING'' [(''2024-07-03T14:00'', ''none'')]) \<and>
   deserialize (report_record ''RUNNING'' [(''2024-07-03T14:00'', ''none'')])
     = Inr \<lparr>uuid = Text ''6f1c2a9e'', description = ''Write report'', status = ''RUNNING'',
            task_times = [(mk_datetime 2024 7 3 14 0 0 0, None)],
            task_notes = [''half done'']\<rparr> \<and>
   serialize \<lparr>uuid = Text ''6f1c2a9e'', description = ''Write report'', status = ''RUNNING'',
            task_times = [(mk_datetime 2024 7 3 14 0 0 0, None)],
            task_notes = [''half done'']\<rparr>
     = report_record ''RUNNING'' [(''2024-07-03T14:00'', ''None'')] \<and>
   report_record ''RUNNING'' [(''2024-07-03T14:00'', ''None'')]
     \<noteq> report_record ''RUNNING'' [(''2024-07-03T14:00'', ''none'')]"
proof (intro conjI)
  show "wf_record ''none'' (report_record ''RUNNING'' [(''2024-07-03T14:00'', ''none'')])"
    by (simp add: wf_record_def wf_pair_def report_record_def is_digit_def digit_val_def
        days_in_month_def)
  have "strptime ''2024-07-03T14:00'' = Inr (mk_datetime 2024 7 3 14 0 0 0)"
    by (simp add: timestamp_eval mk_datetime_def)
  then show "deserialize (report_record ''RUNNING'' [(''2024-07-03T14:00'', ''none'')])
     = Inr \<lparr>uuid = Text ''6f1c2a9e'', description = ''Write report'', status = ''RUNNING'',
            task_times = [(mk_datetime 2024 7 3 14 0 0 0, None)],
            task_notes = [''half done'']\<rparr>"
    by (simp add: deserialize_def report_record_def lower_def lower_char_def)
  have "strftime (mk_datetime 2024 7 3 14 0 0 0) = ''2024-07-03T14:00''"
    by (simp add: timestamp_eval mk_datetime_def)
  then show "serialize \<lparr>uuid = Text ''6f1c2a9e'', description = ''Write report'',
            status = ''RUNNING'', task_times = [(mk_datetime 2024 7 3 14 0 0 0, None)],
            task_notes = [''half done'']\<rparr>
     = report_record ''RUNNING'' [(''2024-07-03T14:00'', ''None'')]"
    by (simp add: serialize_def report_record_def serialize_interval_simps)
  show "report_record ''RUNNING'' [(''2024-07-03T14:00'', ''None'')]
     \<noteq> report_record ''RUNNING'' [(''2024-07-03T14:00'', ''none'')]"
    by (simp add: report_record_def)
qed

subsection \<open>Writing a task and reading it back\<close>

lemma deserialize_interval_serialize:
  assumes "valid_interval iv" and "deserialize_times ts = Inr ivs"
  shows "deserialize_times (serialize_interval iv # ts) = Inr (truncate_interval iv # ivs)"
proof -
  obtain x y where iv: "iv = (x, y)" by (cases iv)
  from assms(1) have x: "strptime (strftime x) = Inr (truncate_minute x)"
    unfolding iv valid_interval_def by (simp add: strptime_strftime)
  show ?thesis
  proof (cases y)
    case None
    show ?thesis
      unfolding iv None serialize_interval_simps truncate_interval_def
      using deserialize_times_Cons_None [OF x assms(2)] by simp
  next
    case (Some e)
    with assms(1) have e: "strptime (strftime e) = Inr (truncate_minute e)"
      unfolding iv valid_interval_def by (simp add: strptime_strftime)
    show ?thesis
      unfolding iv Some serialize_interval_simps truncate_interval_def
      using deserialize_times_Cons_Some [OF x e lower_strftime_not_none assms(2)] by simp
  qed
qed

lemma deserialize_times_serialize:
  "list_all valid_interval ts \<Longrightarrow>
   deserialize_times (map serialize_interval ts) = Inr (map truncate_interval ts)"
proof (induction ts)
  case Nil
  then show ?case by simp
next
  case (Cons iv ts)
  from Cons.prems have "valid_interval iv" and "list_all valid_interval ts" by simp_all
  from deserialize_interval_serialize [OF this(1) Cons.IH [OF this(2)]]
  show ?case by (simp only: list.map)
qed

lemma deserialize_serialize:
  assumes "list_all valid_interval (task_times t)"
  shows "deserialize (serialize t) =
           Inr (t\<lparr>uuid := Text (str_ident (uuid t)),
                  task_times := map truncate_interval (task_times t)\<rparr>)"
  using deserialize_times_serialize [OF assms]
  by (simp add: deserialize_def serialize_def)

lemma truncate_minute_fixed: "truncate_minute d = d \<longleftrightarrow> whole_minute d"
proof
  assume "truncate_minute d = d"
  then have "second (truncate_minute d) = second d" "microsecond (truncate_minute d) = microsecond d"
    by simp_all
  then show "whole_minute d" by (simp add: truncate_minute_def whole_minute_def)
next
  assume "whole_minute d"
  then show "truncate_minute d = d" by (rule truncate_whole_minute)
qed

lemma truncate_interval_fixed: "truncate_interval iv = iv \<longleftrightarrow> whole_minute_interval iv"
proof (cases iv)
  case (Pair x y)
  then show ?thesis
    by (cases y)
      (simp_all add: truncate_interval_def whole_minute_interval_def truncate_minute_fixed)
qed

lemma map_truncate_fixed:
  "map truncate_interval ts = ts \<longleftrightarrow> list_all whole_minute_interval ts"
  by (induction ts) (simp_all add: truncate_interval_fixed)

lemma roundtrip_exact_iff:
  assumes "list_all valid_interval (task_times t)"
  shows "deserialize (serialize t) = Inr t \<longleftrightarrow>
           list_all whole_minute_interval (task_times t) \<and> (\<exists>u. uuid t = Text u)"
proof -
  have u: "Text (str_ident (uuid t)) = uuid t \<longleftrightarrow> (\<exists>u. uuid t = Text u)"
    by (cases "uuid t") simp_all
  have "t\<lparr>uuid := Text (str_ident (uuid t)), task_times := map truncate_interval (task_times t)\<rparr> = t
        \<longleftrightarrow> Text (str_ident (uuid t)) = uuid t \<and> map truncate_interval (task_times t) = task_times t"
    by (cases t) simp
  then show ?thesis
    by (simp only: deserialize_serialize [OF assms] sum.inject u map_truncate_fixed conj_commute)
qed

lemma not_exact_if_timestamp_fractional:
  assumes "list_all valid_interval (task_times t)" and "iv \<in> set (task_times t)"
    and "\<not> whole_minute_interval iv"
  shows "deserialize (serialize t) \<noteq> Inr t"
proof -
  from assms(2,3) have "\<not> list_all whole_minute_interval (task_times t)"
    by (auto simp: list_all_iff)
  then show ?thesis by (simp only: roundtrip_exact_iff [OF assms(1)]) simp
qed

lemma valid_interval_now:
  "valid_datetime now \<Longrightarrow> 1000 \<le> year now \<Longrightarrow> valid_interval (now, None)"
  "valid_datetime now \<Longrightarrow> 1000 \<le> year now \<Longrightarrow> valid_interval iv \<Longrightarrow>
     valid_interval (fst iv, Some now)"
  by (simp_all add: valid_interval_def)

lemma start_not_exact:
  assumes "list_all valid_interval (task_times t)" and "valid_datetime now" and "1000 \<le> year now"
    and "\<not> whole_minute now" and "raised (start now t) = None"
  shows "deserialize (serialize (after (start now t))) \<noteq> Inr (after (start now t))"
proof -
  from assms(5) have tt: "task_times (after (start now t)) = task_times t @ [(now, None)]"
    by (simp add: start_def Let_def split: if_splits)
  from assms(1-3) have "list_all valid_interval (task_times (after (start now t)))"
    by (simp add: tt valid_interval_now)
  moreover have "(now, None) \<in> set (task_times (after (start now t)))"
    by (simp add: tt)
  moreover from assms(4) have "\<not> whole_minute_interval (now, None)"
    by (simp add: whole_minute_interval_def)
  ultimately show ?thesis by (rule not_exact_if_timestamp_fractional)
qed

lemma close_last_not_exact:
  assumes "list_all valid_interval (task_times t)" and "valid_datetime now" and "1000 \<le> year now"
    and "\<not> whole_minute now" and "status t = RUNNING" and "raised (close_last st now t) = None"
  shows "deserialize (serialize (after (close_last st now t))) \<noteq> Inr (after (close_last st now t))"
proof -
  let ?ts = "task_times t"
  let ?new = "(fst (last ?ts), Some now)"
  from assms(5,6) have ne: "?ts \<noteq> []"
    by (auto simp: close_last_empty)
  have op: "open_interval (last ?ts)"
  proof (rule ccontr)
    assume "\<not> open_interval (last ?ts)"
    from close_last_closed [OF assms(5) ne this, of st now] assms(6) show False by simp
  qed
  from assms(5) ne op have tt: "task_times (after (close_last st now t)) = ?ts[length ?ts - 1 := ?new]"
    by (simp add: close_last_times)
  from assms(1) ne have "valid_interval (last ?ts)"
    by (simp add: list_all_iff)
  with assms(2,3) have vn: "valid_interval ?new" by (simp add: valid_interval_now)
  have "set (?ts[length ?ts - 1 := ?new]) \<subseteq> insert ?new (set ?ts)"
    by (rule set_update_subset_insert)
  with assms(1) vn have "list_all valid_interval (task_times (after (close_last st now t)))"
    unfolding tt list_all_iff by blast
  moreover from ne have "?new \<in> set (task_times (after (close_last st now t)))"
    unfolding tt by (simp add: set_update_memI)
  moreover from assms(4) have "\<not> whole_minute_interval ?new"
    by (simp add: whole_minute_interval_def)
  ultimately show ?thesis by (rule not_exact_if_timestamp_fractional)
qed

text \<open>
  C9. For every task whose timestamps are dates from the year 1000 on, reading back
  what \<open>serialize\<close> wrote gives the task with every timestamp cut to the minute (and
  the identifier as text). It gives the task itself exactly when every timestamp has
  zero seconds and microseconds and the identifier is text already. After a \<open>start\<close>,
  \<open>pause\<close> or \<open>complete\<close> that took effect at an instant with seconds or microseconds,
  the task does not come back as it was.
\<close>

theorem deserialize_serialize_truncates:
  assumes "list_all valid_interval (task_times t)"
  shows "deserialize (serialize t) =
           Inr (t\<lparr>uuid := Text (str_ident (uuid t)),
                  task_times := map truncate_interval (task_times t)\<rparr>) \<and>
         (deserialize (serialize t) = Inr t \<longleftrightarrow>
            list_all whole_minute_interval (task_times t) \<and> (\<exists>u. uuid t = Text u)) \<and>
         (valid_datetime now \<and> 1000 \<le> year now \<and> \<not> whole_minute now \<longrightarrow>
            (raised (start now t) = None \<longrightarrow>
               deserialize (serialize (after (start now t))) \<noteq> Inr (after (start now t))) \<and>
            (status t = RUNNING \<and> raised (pause now t) = None \<longrightarrow>
               deserialize (serialize (after (pause now t))) \<noteq> Inr (after (pause now t))) \<and>
            (status t = RUNNING \<and> raised (complete now t) = None \<longrightarrow>
               deserialize (serialize (after (complete now t))) \<noteq> Inr (after (complete now t))))"
proof (intro conjI impI)
  show "deserialize (serialize t) =
           Inr (t\<lparr>uuid := Text (str_ident (uuid t)),
                  task_times := map truncate_interval (task_times t)\<rparr>)"
    by (rule deserialize_serialize [OF assms])
  show "deserialize (serialize t) = Inr t \<longleftrightarrow>
            list_all whole_minute_interval (task_times t) \<and> (\<exists>u. uuid t = Text u)"
    by (rule roundtrip_exact_iff [OF assms])
next
  assume n: "valid_datetime now \<and> 1000 \<le> year now \<and> \<not> whole_minute now"
    and r: "raised (start now t) = None"
  from n r show "deserialize (serialize (after (start now t))) \<noteq> Inr (after (start now t))"
    by (intro start_not_exact [OF assms]) simp_all
next
  assume n: "valid_datetime now \<and> 1000 \<le> year now \<and> \<not> whole_minute now"
    and r: "status t = RUNNING \<and> raised (pause now t) = None"
  from n r show "deserialize (serialize (after (pause now t))) \<noteq> Inr (after (pause now t))"
    unfolding pause_def by (intro close_last_not_exact [OF assms]) simp_all
next
  assume n: "valid_datetime now \<and> 1000 \<le> year now \<and> \<not> whole_minute now"
    and r: "status t = RUNNING \<and> raised (complete now t) = None"
  from n r show "deserialize (serialize (after (complete now t))) \<noteq> Inr (after (complete now t))"
    unfolding complete_def by (intro close_last_not_exact [OF assms]) simp_all
qed


text \<open>
  The theorem at a paused task with the interval 09:00:12.345678 to 09:30:59, and at
  that task started again at 14:00:45.5.
\<close>

theorem deserialize_serialize_truncates_witness:
  "list_all valid_interval
     (task_times (report_task PAUSED
        [(mk_datetime 2024 7 3 9 0 12 345678, Some (mk_datetime 2024 7 3 9 30 59 0))])) \<and>
   deserialize (serialize (report_task PAUSED
        [(mk_datetime 2024 7 3 9 0 12 345678, Some (mk_datetime 2024 7 3 9 30 59 0))]))
     = Inr \<lparr>uuid = Text ''6f1c2a9e'', description = ''Write report'', status = PAUSED,
            task_times = [(mk_datetime 2024 7 3 9 0 0 0, Some (mk_datetime 2024 7 3 9 30 0 0))],
            task_notes = []\<rparr> \<and>
   deserialize (serialize (report_task PAUSED
        [(mk_datetime 2024 7 3 9 0 12 345678, Some (mk_datetime 2024 7 3 9 30 59 0))]))
     \<noteq> Inr (report_task PAUSED
        [(mk_datetime 2024 7 3 9 0 12 345678, Some (mk_datetime 2024 7 3 9 30 59 0))]) \<and>
   deserialize (serialize (after (start (mk_datetime 2024 7 3 14 0 45 500000)
       (report_task PAUSED
          [(mk_datetime 2024 7 3 9 0 12 345678, Some (mk_datetime 2024 7 3 9 30 59 0))]))))
     \<noteq> Inr (after (start (mk_datetime 2024 7 3 14 0 45 500000)
       (report_task PAUSED
          [(mk_datetime 2024 7 3 9 0 12 345678, Some (mk_datetime 2024 7 3 9 30 59 0))])))"
proof -
  let ?t = "report_task PAUSED
     [(mk_datetime 2024 7 3 9 0 12 345678, Some (mk_datetime 2024 7 3 9 30 59 0))]"
  let ?now = "mk_datetime 2024 7 3 14 0 45 500000"
  have v: "list_all valid_interval (task_times ?t)"
    by (simp add: report_task_def valid_interval_def datetime_eval)
  have n: "valid_datetime ?now \<and> 1000 \<le> year ?now \<and> \<not> whole_minute ?now"
    by (simp add: datetime_eval whole_minute_def)
  have r: "raised (start ?now ?t) = None"
    by (simp add: start_def report_task_def Let_def)
  note th = deserialize_serialize_truncates [OF v, of ?now]
  have "?t\<lparr>uuid := Text (str_ident (uuid ?t)),
            task_times := map truncate_interval (task_times ?t)\<rparr>
        = \<lparr>uuid = Text ''6f1c2a9e'', description = ''Write report'', status = PAUSED,
            task_times = [(mk_datetime 2024 7 3 9 0 0 0, Some (mk_datetime 2024 7 3 9 30 0 0))],
            task_notes = []\<rparr>"
    by (simp add: report_task_def truncate_interval_def truncate_minute_def mk_datetime_def)
  with th [THEN conjunct1] have 1: "deserialize (serialize ?t)
     = Inr \<lparr>uuid = Text ''6f1c2a9e'', description = ''Write report'', status = PAUSED,
            task_times = [(mk_datetime 2024 7 3 9 0 0 0, Some (mk_datetime 2024 7 3 9 30 0 0))],
            task_notes = []\<rparr>"
    by (simp only:)
  have "\<not> list_all whole_minute_interval (task_times ?t)"
    by (simp add: report_task_def whole_minute_interval_def whole_minute_def mk_datetime_def)
  with th [THEN conjunct2, THEN conjunct1] have 2: "deserialize (serialize ?t) \<noteq> Inr ?t"
    by (simp only:) simp
  from th [THEN conjunct2, THEN conjunct2, rule_format, OF n, THEN conjunct1, rule_format, OF r]
  have 3: "deserialize (serialize (after (start ?now ?t))) \<noteq> Inr (after (start ?now ?t))" .
  from v 1 2 3 show ?thesis by (intro conjI)
qed

end
